theory Spec2Isabelle
  imports Main "HOL-Library.Word"
begin

unbundle bit_operations_syntax

section \<open>Table sets\<close>

text \<open>
  \<^verbatim>\<open>TableSet uint64\<close>: bit \<open>i\<close> is set iff the table with offset \<open>i\<close> in
  \<^verbatim>\<open>SemTable.Tables\<close> belongs to the set.
\<close>

type_synonym TableSet = "64 word"

text \<open>\<^verbatim>\<open>func (ts TableSet) IsOverlapping(b TableSet) bool { return ts&b != 0 }\<close>\<close>

definition IsOverlapping :: "TableSet \<Rightarrow> TableSet \<Rightarrow> bool" where
  "IsOverlapping ts b = (ts AND b \<noteq> 0)"

text \<open>\<^verbatim>\<open>func (ts TableSet) IsSolvedBy(b TableSet) bool { return ts&b == ts }\<close>\<close>

definition IsSolvedBy :: "TableSet \<Rightarrow> TableSet \<Rightarrow> bool" where
  "IsSolvedBy ts b = (ts AND b = ts)"

text \<open>
  \<^verbatim>\<open>NumberOfTables\<close>: the loop \<^verbatim>\<open>for ts > 0 { ts &= ts - 1; count++ }\<close>, with the
  counter as an accumulator. The counter is a Go \<^verbatim>\<open>int\<close>; it never leaves \<open>0..64\<close>.
\<close>

lemma and_pred_less: "(ts :: 'a::len word) \<noteq> 0 \<Longrightarrow> ts AND (ts - 1) < ts"
proof -
  assume nz: "ts \<noteq> 0"
  have "ts AND (ts - 1) \<le> ts - 1" by (rule word_and_le1)
  moreover have "ts - 1 < ts" using nz by (simp add: word_less_nat_alt unat_minus_one unat_gt_0)
  ultimately show ?thesis by simp
qed

function NumberOfTables_loop :: "TableSet \<Rightarrow> nat \<Rightarrow> nat" where
  "NumberOfTables_loop ts count =
     (if ts > 0 then NumberOfTables_loop (ts AND (ts - 1)) (count + 1) else count)"
  by pat_completeness auto

termination
  by (relation "measure (\<lambda>(ts, count). unat ts)")
     (auto simp: word_less_nat_alt [symmetric] and_pred_less word_gt_0)

declare NumberOfTables_loop.simps [simp del]

definition NumberOfTables :: "TableSet \<Rightarrow> nat" where
  "NumberOfTables ts = NumberOfTables_loop ts 0"

text \<open>
  \<^verbatim>\<open>TableOffset\<close>: the loop \<^verbatim>\<open>for ts > 1 { ts = ts >> 1; offset++ }\<close>.
\<close>

lemma drop_bit_one_less: "(1 :: 'a::len word) < ts \<Longrightarrow> drop_bit 1 ts < ts"
  by (simp add: word_less_nat_alt unat_drop_bit_eq drop_bit_eq_div unat_div del: One_nat_def)

lemma drop_bit_Suc0_less: "(1 :: 'a::len word) < ts \<Longrightarrow> drop_bit (Suc 0) ts < ts"
  using drop_bit_one_less [of ts] by simp

function TableOffset_loop :: "TableSet \<Rightarrow> nat \<Rightarrow> nat" where
  "TableOffset_loop ts offset =
     (if ts > 1 then TableOffset_loop (drop_bit 1 ts) (offset + 1) else offset)"
  by pat_completeness auto

termination
  by (relation "measure (\<lambda>(ts, offset). unat ts)")
     (auto simp: word_less_nat_alt [symmetric] drop_bit_Suc0_less)

declare TableOffset_loop.simps [simp del]

definition TableOffset :: "TableSet \<Rightarrow> nat" where
  "TableOffset ts = TableOffset_loop ts 0"

text \<open>\<^verbatim>\<open>func (ts TableSet) Merge(other TableSet) TableSet { return ts | other }\<close>\<close>

definition Merge :: "TableSet \<Rightarrow> TableSet \<Rightarrow> TableSet" where
  "Merge ts other = ts OR other"


section \<open>Errors\<close>

text \<open>
  A \<^verbatim>\<open>vterrors\<close> error carries its \<^verbatim>\<open>vtrpcpb.Code\<close>, the optional state given to
  \<^verbatim>\<open>vterrors.NewErrorf\<close> and the formatted message. A run-time panic of Go (an explicit
  \<^verbatim>\<open>panic\<close>, an index out of range, a map operation that the run time refuses) is
  the second kind of failure.
\<close>

datatype Code = Code_INTERNAL | Code_INVALID_ARGUMENT

datatype State = NonUniqTable

datatype error =
    VtError Code "State option" string
  | Panic string

definition ErrMultipleTables :: error where
  "ErrMultipleTables = VtError Code_INTERNAL None ''[BUG] should only be used for single tables''"

fun isPanic :: "error + 'a \<Rightarrow> bool" where
  "isPanic (Inl (Panic m)) = True"
| "isPanic r = False"

section \<open>The syntax tree\<close>

text \<open>
  Modelled from the spec: package \<^verbatim>\<open>sqlparser\<close> (the node types, \<^verbatim>\<open>Walk\<close>,
  \<^verbatim>\<open>Rewrite\<close>, \<^verbatim>\<open>CloneExpr\<close>) and \<^verbatim>\<open>validAsMapKey\<close> are declared outside the
  files at hand. The spec asks for identity-stable nodes, so a node of pointer type carries
  its address; identifiers are read through \<^verbatim>\<open>String()\<close>.
\<close>

type_synonym ColIdent = string
type_synonym TableIdent = string

record TableName =
  tn_Name :: TableIdent
  tn_Qualifier :: TableIdent

text \<open>\<^verbatim>\<open>TableIdent.IsEmpty\<close>, used on the qualifier by \<^verbatim>\<open>Matches\<close>.\<close>

definition IsEmpty :: "TableIdent \<Rightarrow> bool" where
  "IsEmpty v = (v = [])"

text \<open>
  \<^verbatim>\<open>*sqlparser.AliasedTableExpr\<close>: the address of the node, and what its method
  \<^verbatim>\<open>TableName()\<close> returns (it fails when the node has no derivable name).
\<close>

record AliasedTableExpr =
  ate_addr :: nat
  ate_TableName :: "error + TableName"

text \<open>\<^verbatim>\<open>*sqlparser.ColName\<close>.\<close>

record ColName =
  cn_addr :: nat
  cn_Name :: ColIdent
  cn_Qualifier :: TableName

text \<open>
  The nodes of a statement: a column reference; any other expression of pointer type, with
  its address and its children; a tuple of expressions, which is a slice and so not
  comparable; a node that is not an expression (a statement, a table expression).
\<close>

datatype SQLNode =
    ColNameExpr ColName
  | PtrExpr nat "SQLNode list"
  | ValTuple "SQLNode list"
  | OtherNode nat "SQLNode list"

type_synonym Expr = SQLNode

text \<open>The type assertion \<^verbatim>\<open>node.(sqlparser.Expr)\<close>.\<close>

fun isExpr :: "SQLNode \<Rightarrow> bool" where
  "isExpr (OtherNode p cs) = False"
| "isExpr n = True"

text \<open>
  Whether Go can hash the node as a map key of interface type: a pointer is compared by
  address, a slice cannot be compared at all.
\<close>

fun comparable :: "SQLNode \<Rightarrow> bool" where
  "comparable (ValTuple cs) = False"
| "comparable n = True"

text \<open>
  Modelled from the spec: \<^verbatim>\<open>validAsMapKey\<close> is false for the "expression node types that
  cannot serve as a stable map key".
\<close>

definition validAsMapKey :: "Expr \<Rightarrow> bool" where
  "validAsMapKey expr = comparable expr"

section \<open>Table information\<close>

text \<open>\<^verbatim>\<open>querypb.Type\<close> is an \<^verbatim>\<open>int32\<close> enumeration; its zero value is the null type.\<close>

type_synonym Type = "32 word"

record ColumnInfo =
  ci_Name :: string
  ci_Type :: Type

text \<open>The fields of \<^verbatim>\<open>vindexes.Column\<close>, \<^verbatim>\<open>vindexes.ColumnVindex\<close> and
  \<^verbatim>\<open>vindexes.Table\<close> that this package reads.\<close>

record Column =
  Column_Name :: ColIdent
  Column_Type :: Type

record ColumnVindex =
  cv_Columns :: "ColIdent list"

record VTable =
  Columns :: "Column list"
  ColumnListAuthoritative :: bool
  ColumnVindexes :: "ColumnVindex list"

type_synonym Vindex = string

text \<open>
  The two implementations of the interface \<^verbatim>\<open>TableInfo\<close>. The pointer
  \<^verbatim>\<open>AliasedTable.Table\<close> may be nil.
\<close>

datatype TableInfo =
    AliasedTable string AliasedTableExpr "VTable option" bool
  | VindexTable TableInfo Vindex

text \<open>
  Modelled from the spec: the three dependency results are built by \<^verbatim>\<open>createCertain\<close>,
  \<^verbatim>\<open>createUncertain\<close> and \<^verbatim>\<open>&nothing{}\<close>, declared outside the files at hand:
  Certain (direct set, recursive set, type), Uncertain (direct set, recursive set), Absent.
\<close>

datatype dependencies =
    createCertain TableSet TableSet Type
  | createUncertain TableSet TableSet
  | nothing

text \<open>
  \<^verbatim>\<open>strings.EqualFold\<close> belongs to the Go library: it reports whether two strings are
  equal under Unicode case folding. Its folding tables are no part of this package, so
  the functions that call it take the comparison as the parameter \<open>equalFold\<close>; what is proved
  of them holds whatever the comparison answers.
\<close>

type_synonym EqualFold = "string \<Rightarrow> string \<Rightarrow> bool"

text \<open>\<^verbatim>\<open>GetExpr\<close>, \<^verbatim>\<open>GetVindexTable\<close>, \<^verbatim>\<open>Name\<close>, \<^verbatim>\<open>Authoritative\<close>, \<^verbatim>\<open>Matches\<close>,
  \<^verbatim>\<open>IsInfSchema\<close>, \<^verbatim>\<open>IsActualTable\<close>: the vindex table delegates to the table it wraps,
  except for \<^verbatim>\<open>Authoritative\<close>.\<close>

fun GetExpr :: "TableInfo \<Rightarrow> AliasedTableExpr" where
  "GetExpr (AliasedTable tableName ASTNode Table isInfSchema) = ASTNode"
| "GetExpr (VindexTable Table Vindex) = GetExpr Table"

fun GetVindexTable :: "TableInfo \<Rightarrow> VTable option" where
  "GetVindexTable (AliasedTable tableName ASTNode Table isInfSchema) = Table"
| "GetVindexTable (VindexTable Table Vindex) = GetVindexTable Table"

fun Name :: "TableInfo \<Rightarrow> error + TableName" where
  "Name (AliasedTable tableName ASTNode Table isInfSchema) = ate_TableName ASTNode"
| "Name (VindexTable Table Vindex) = Name Table"

fun Authoritative :: "TableInfo \<Rightarrow> bool" where
  "Authoritative (AliasedTable tableName ASTNode Table isInfSchema) =
     (case Table of None \<Rightarrow> False | Some tbl \<Rightarrow> ColumnListAuthoritative tbl)"
| "Authoritative (VindexTable Table Vindex) = True"

fun Matches :: "TableInfo \<Rightarrow> TableName \<Rightarrow> bool" where
  "Matches (AliasedTable tableName ASTNode Table isInfSchema) name =
     (tableName = tn_Name name \<and> IsEmpty (tn_Qualifier name))"
| "Matches (VindexTable Table Vindex) name = Matches Table name"

fun IsInfSchema :: "TableInfo \<Rightarrow> bool" where
  "IsInfSchema (AliasedTable tableName ASTNode Table isInfSchema) = isInfSchema"
| "IsInfSchema (VindexTable Table Vindex) = IsInfSchema Table"

fun IsActualTable :: "TableInfo \<Rightarrow> bool" where
  "IsActualTable t = True"

text \<open>
  \<^verbatim>\<open>GetExprFor\<close>: the aliased table answers every name with the "Unknown column"
  error, the vindex table panics.
\<close>

fun GetExprFor :: "TableInfo \<Rightarrow> string \<Rightarrow> error + Expr" where
  "GetExprFor (AliasedTable tableName ASTNode Table isInfSchema) s =
     Inl (VtError Code_INTERNAL None (''Unknown column '' @ [CHR 0x27] @ s @ [CHR 0x27] @ '' in '' @ [CHR 0x27] @ ''field list'' @ [CHR 0x27]))"
| "GetExprFor (VindexTable Table Vindex) s = Inl (Panic ''implement me'')"

subsection \<open>The column list\<close>

text \<open>
  \<^verbatim>\<open>vindexTableToColumnInfo\<close>. The first loop appends every catalog column and enters its
  name, as written, into \<^verbatim>\<open>nameMap\<close> (a map used as a set of strings).
\<close>

fun catalogColumns :: "Column list \<Rightarrow> ColumnInfo list \<Rightarrow> string set \<Rightarrow> ColumnInfo list \<times> string set" where
  "catalogColumns [] cols nameMap = (cols, nameMap)"
| "catalogColumns (col # rest) cols nameMap =
     catalogColumns rest
       (cols @ [\<lparr>ci_Name = Column_Name col, ci_Type = Column_Type col\<rparr>])
       (insert (Column_Name col) nameMap)"

text \<open>
  The inner loop over the columns of one vindex: a name already in \<^verbatim>\<open>nameMap\<close> is
  skipped, any other is appended with the zero type and entered into \<^verbatim>\<open>nameMap\<close>.
\<close>

fun vindexColumns :: "ColIdent list \<Rightarrow> ColumnInfo list \<Rightarrow> string set \<Rightarrow> ColumnInfo list \<times> string set" where
  "vindexColumns [] cols nameMap = (cols, nameMap)"
| "vindexColumns (name # rest) cols nameMap =
     (if name \<in> nameMap then vindexColumns rest cols nameMap
      else vindexColumns rest (cols @ [\<lparr>ci_Name = name, ci_Type = 0\<rparr>]) (insert name nameMap))"

text \<open>The outer loop over \<^verbatim>\<open>tbl.ColumnVindexes\<close>.\<close>

fun columnVindexes :: "ColumnVindex list \<Rightarrow> ColumnInfo list \<Rightarrow> string set \<Rightarrow> ColumnInfo list \<times> string set" where
  "columnVindexes [] cols nameMap = (cols, nameMap)"
| "columnVindexes (vindex # rest) cols nameMap =
     (case vindexColumns (cv_Columns vindex) cols nameMap of
        (cols', nameMap') \<Rightarrow> columnVindexes rest cols' nameMap')"

definition vindexTableToColumnInfo :: "VTable option \<Rightarrow> ColumnInfo list" where
  "vindexTableToColumnInfo tbl =
     (case tbl of
        None \<Rightarrow> []
      | Some t \<Rightarrow>
          (case catalogColumns (Columns t) [] {} of
             (cols, nameMap) \<Rightarrow>
               if ColumnListAuthoritative t then cols
               else fst (columnVindexes (ColumnVindexes t) cols nameMap)))"

fun GetColumns :: "TableInfo \<Rightarrow> ColumnInfo list" where
  "GetColumns (AliasedTable tableName ASTNode Table isInfSchema) = vindexTableToColumnInfo Table"
| "GetColumns (VindexTable Table Vindex) = GetColumns Table"

subsection \<open>Resolving a column name against one table\<close>

text \<open>
  The interface \<^verbatim>\<open>originable\<close> is used through its method \<^verbatim>\<open>tableSetFor\<close> only, so it
  is that function.
\<close>

type_synonym originable = "AliasedTableExpr \<Rightarrow> TableSet"

text \<open>The loop of \<^verbatim>\<open>depsForAliasedAndRealTables\<close> returns at the first column whose name
  matches.\<close>

fun depsScan :: "EqualFold \<Rightarrow> ColumnInfo list \<Rightarrow> string \<Rightarrow> ColumnInfo option" where
  "depsScan equalFold [] colName = None"
| "depsScan equalFold (info # rest) colName =
     (if equalFold (ci_Name info) colName then Some info else depsScan equalFold rest colName)"

definition depsForAliasedAndRealTables ::
  "EqualFold \<Rightarrow> string \<Rightarrow> originable \<Rightarrow> AliasedTableExpr \<Rightarrow> ColumnInfo list \<Rightarrow> bool
     \<Rightarrow> error + dependencies" where
  "depsForAliasedAndRealTables equalFold colName org node columns authoritative =
     (let ts = org node in
      case depsScan equalFold columns colName of
        Some info \<Rightarrow> Inr (createCertain ts ts (ci_Type info))
      | None \<Rightarrow> if authoritative then Inr nothing else Inr (createUncertain ts ts))"

text \<open>\<^verbatim>\<open>Dependencies\<close> of the interface \<^verbatim>\<open>TableInfo\<close>.\<close>

fun TableInfo_Dependencies ::
  "EqualFold \<Rightarrow> TableInfo \<Rightarrow> string \<Rightarrow> originable \<Rightarrow> error + dependencies" where
  "TableInfo_Dependencies equalFold (AliasedTable tableName ASTNode Table isInfSchema) colName org =
     depsForAliasedAndRealTables equalFold colName org ASTNode
       (GetColumns (AliasedTable tableName ASTNode Table isInfSchema))
       (Authoritative (AliasedTable tableName ASTNode Table isInfSchema))"
| "TableInfo_Dependencies equalFold (VindexTable Table Vindex) colName org =
     TableInfo_Dependencies equalFold Table colName org"

fun GetTables :: "TableInfo \<Rightarrow> originable \<Rightarrow> TableSet" where
  "GetTables (AliasedTable tableName ASTNode Table isInfSchema) org = org ASTNode"
| "GetTables (VindexTable Table Vindex) org = GetTables Table org"

section \<open>The semantic table\<close>

text \<open>
  A Go map is nil until it is made: reading a nil map finds nothing, writing to it panics.
  \<open>None\<close> is the nil map. An access with a key that is not comparable panics, whatever
  the map holds.
\<close>

type_synonym ExprDependencies = "(Expr \<rightharpoonup> TableSet) option"

definition mapaccess :: "ExprDependencies \<Rightarrow> Expr \<Rightarrow> error + TableSet option" where
  "mapaccess d expr =
     (if \<not> comparable expr then Inl (Panic ''runtime error: hash of unhashable type'')
      else Inr (case d of None \<Rightarrow> None | Some m \<Rightarrow> m expr))"

definition mapassign :: "ExprDependencies \<Rightarrow> Expr \<Rightarrow> TableSet \<Rightarrow> error + ExprDependencies" where
  "mapassign d expr deps =
     (if \<not> comparable expr then Inl (Panic ''runtime error: hash of unhashable type'')
      else case d of
             None \<Rightarrow> Inl (Panic ''assignment to entry in nil map'')
           | Some m \<Rightarrow> Inr (Some (m(expr \<mapsto> deps))))"

text \<open>\<^verbatim>\<open>columnName\<close>, the key of \<^verbatim>\<open>ColumnEqualities\<close>.\<close>

datatype columnName = columnName TableSet string

text \<open>
  The fields of \<^verbatim>\<open>SemTable\<close> that the functions below read or write (the projection
  error, the expression types, the scopes, the comments and the subquery maps are left out).
\<close>

record SemTable =
  Tables :: "TableInfo list"
  Recursive :: ExprDependencies
  Direct :: ExprDependencies
  ColumnEqualities :: "(columnName \<rightharpoonup> Expr list) option"


text \<open>
  \<^verbatim>\<open>TableSetFor\<close>: the first table whose node is the given one (pointers are compared)
  gives \<^verbatim>\<open>1 << idx\<close>. The constant has type \<^verbatim>\<open>TableSet\<close>, so a shift by 64 or more
  gives 0.
\<close>

fun TableSetFor_loop :: "TableInfo list \<Rightarrow> nat \<Rightarrow> AliasedTableExpr \<Rightarrow> TableSet" where
  "TableSetFor_loop [] idx t = 0"
| "TableSetFor_loop (t2 # rest) idx t =
     (if ate_addr t = ate_addr (GetExpr t2) then push_bit idx 1
      else TableSetFor_loop rest (Suc idx) t)"

definition TableSetFor :: "SemTable \<Rightarrow> AliasedTableExpr \<Rightarrow> TableSet" where
  "TableSetFor st t = TableSetFor_loop (Tables st) 0 t"

text \<open>\<^verbatim>\<open>TableInfoFor\<close>: the slice is indexed without a check, so an offset that is
  out of range panics.\<close>

definition TableInfoFor :: "SemTable \<Rightarrow> TableSet \<Rightarrow> error + TableInfo" where
  "TableInfoFor st id' =
     (if NumberOfTables id' > 1 then Inl ErrMultipleTables
      else if TableOffset id' < length (Tables st) then Inr (Tables st ! TableOffset id')
      else Inl (Panic ''runtime error: index out of range''))"

subsection \<open>Scopes\<close>

text \<open>\<^verbatim>\<open>scope\<close>: the parent and the select statement are pointers, possibly nil.\<close>

record scope =
  parent :: "nat option"
  selectStmt :: "nat option"
  tables :: "TableInfo list"
  isUnion :: bool

definition newScope :: "nat option \<Rightarrow> scope" where
  "newScope p = \<lparr>parent = p, selectStmt = None, tables = [], isUnion = False\<rparr>"

text \<open>The loop of \<^verbatim>\<open>addTable\<close> over the tables of the scope: \<open>Some\<close> is the error it
  returns with.\<close>

fun addTable_scan :: "TableInfo list \<Rightarrow> string \<Rightarrow> error option" where
  "addTable_scan [] tblName = None"
| "addTable_scan (table # rest) tblName =
     (case Name table of
        Inl err \<Rightarrow> Some err
      | Inr name \<Rightarrow>
          if tblName = tn_Name name
          then Some (VtError Code_INVALID_ARGUMENT (Some NonUniqTable)
                       (''Not unique table/alias: '' @ [CHR 0x27] @ tn_Name name @ [CHR 0x27]))
          else addTable_scan rest tblName)"

definition addTable :: "scope \<Rightarrow> TableInfo \<Rightarrow> error + scope" where
  "addTable s info =
     (case Name info of
        Inl err \<Rightarrow> Inl err
      | Inr name \<Rightarrow>
          (case addTable_scan (tables s) (tn_Name name) of
             Some err \<Rightarrow> Inl err
           | None \<Rightarrow> Inr (s\<lparr>tables := tables s @ [info]\<rparr>)))"

subsection \<open>Dependencies of an expression\<close>

text \<open>
  The function given to \<^verbatim>\<open>sqlparser.Walk\<close>: the result is \<^verbatim>\<open>kontinue\<close> and the new value
  of the captured variable \<^verbatim>\<open>deps\<close>.
\<close>

definition visit :: "ExprDependencies \<Rightarrow> SQLNode \<Rightarrow> TableSet \<Rightarrow> error + (bool \<times> TableSet)" where
  "visit d node deps =
     (if \<not> isExpr node \<or> \<not> validAsMapKey node then Inr (True, deps)
      else case mapaccess d node of
             Inl err \<Rightarrow> Inl err
           | Inr None \<Rightarrow> Inr (True, deps)
           | Inr (Some set') \<Rightarrow> Inr (False, deps OR set'))"

text \<open>
  Modelled from the spec: \<^verbatim>\<open>sqlparser.Walk\<close> visits the tree top-down, and goes into the
  children of a node only when the function returned true for it.
\<close>

fun Walk :: "ExprDependencies \<Rightarrow> SQLNode \<Rightarrow> TableSet \<Rightarrow> error + TableSet"
  and Walk_children :: "ExprDependencies \<Rightarrow> SQLNode list \<Rightarrow> TableSet \<Rightarrow> error + TableSet" where
  "Walk d (ColNameExpr c) deps =
     (case visit d (ColNameExpr c) deps of Inl err \<Rightarrow> Inl err | Inr (kontinue, deps') \<Rightarrow> Inr deps')"
| "Walk d (PtrExpr p cs) deps =
     (case visit d (PtrExpr p cs) deps of
        Inl err \<Rightarrow> Inl err
      | Inr (kontinue, deps') \<Rightarrow> if kontinue then Walk_children d cs deps' else Inr deps')"
| "Walk d (ValTuple cs) deps =
     (case visit d (ValTuple cs) deps of
        Inl err \<Rightarrow> Inl err
      | Inr (kontinue, deps') \<Rightarrow> if kontinue then Walk_children d cs deps' else Inr deps')"
| "Walk d (OtherNode p cs) deps =
     (case visit d (OtherNode p cs) deps of
        Inl err \<Rightarrow> Inl err
      | Inr (kontinue, deps') \<Rightarrow> if kontinue then Walk_children d cs deps' else Inr deps')"
| "Walk_children d [] deps = Inr deps"
| "Walk_children d (n # ns) deps =
     (case Walk d n deps of Inl err \<Rightarrow> Inl err | Inr deps' \<Rightarrow> Walk_children d ns deps')"

text \<open>
  \<^verbatim>\<open>ExprDependencies.Dependencies\<close>: the result, and the map after the call.
\<close>

definition Dependencies :: "ExprDependencies \<Rightarrow> Expr \<Rightarrow> error + (TableSet \<times> ExprDependencies)" where
  "Dependencies d expr =
     (case mapaccess d expr of
        Inl err \<Rightarrow> Inl err
      | Inr (Some deps) \<Rightarrow> Inr (deps, d)
      | Inr None \<Rightarrow>
          (case Walk d expr 0 of
             Inl err \<Rightarrow> Inl err
           | Inr deps \<Rightarrow>
               (case mapassign d expr deps of
                  Inl err \<Rightarrow> Inl err
                | Inr d' \<Rightarrow> Inr (deps, d'))))"

definition RecursiveDeps :: "SemTable \<Rightarrow> Expr \<Rightarrow> error + (TableSet \<times> SemTable)" where
  "RecursiveDeps st expr =
     (case Dependencies (Recursive st) expr of
        Inl err \<Rightarrow> Inl err
      | Inr (deps, d') \<Rightarrow> Inr (deps, st\<lparr>Recursive := d'\<rparr>))"

definition DirectDeps :: "SemTable \<Rightarrow> Expr \<Rightarrow> error + (TableSet \<times> SemTable)" where
  "DirectDeps st expr =
     (case Dependencies (Direct st) expr of
        Inl err \<Rightarrow> Inl err
      | Inr (deps, d') \<Rightarrow> Inr (deps, st\<lparr>Direct := d'\<rparr>))"

subsection \<open>Column equalities\<close>




definition TableInfoForExpr :: "SemTable \<Rightarrow> Expr \<Rightarrow> error + (TableInfo \<times> SemTable)" where
  "TableInfoForExpr st expr =
     (case DirectDeps st expr of
        Inl err \<Rightarrow> Inl err
      | Inr (deps, st') \<Rightarrow>
          (case TableInfoFor st' deps of Inl err \<Rightarrow> Inl err | Inr info \<Rightarrow> Inr (info, st')))"

subsection \<open>Rewriting an expression on a derived table\<close>

text \<open>
  Modelled from the spec: \<^verbatim>\<open>sqlparser.CloneExpr\<close> copies the tree, so every node of
  pointer type gets a new address; \<open>reloc\<close> gives the address of the copy.
\<close>

fun CloneExpr :: "(nat \<Rightarrow> nat) \<Rightarrow> SQLNode \<Rightarrow> SQLNode" where
  "CloneExpr reloc (ColNameExpr c) = ColNameExpr (c\<lparr>cn_addr := reloc (cn_addr c)\<rparr>)"
| "CloneExpr reloc (PtrExpr p cs) = PtrExpr (reloc p) (map (CloneExpr reloc) cs)"
| "CloneExpr reloc (ValTuple cs) = ValTuple (map (CloneExpr reloc) cs)"
| "CloneExpr reloc (OtherNode p cs) = OtherNode (reloc p) (map (CloneExpr reloc) cs)"

text \<open>
  Modelled from the spec: \<^verbatim>\<open>sqlparser.Rewrite\<close> calls the function on a node before its
  children, goes into the children only when it returned true, and \<^verbatim>\<open>cursor.Replace\<close>
  puts another node into the slot of the parent. Here it is run with the function of
  \<^verbatim>\<open>RewriteDerivedExpression\<close>, \<open>getExprFor\<close> being the method \<^verbatim>\<open>vt.GetExprFor\<close>; the
  result is what the slot holds afterwards. An error of \<^verbatim>\<open>GetExprFor\<close> leaves the column
  in place and is dropped; a panic ends the call.
\<close>

fun Rewrite :: "(string \<Rightarrow> error + Expr) \<Rightarrow> SQLNode \<Rightarrow> error + SQLNode"
  and Rewrite_children :: "(string \<Rightarrow> error + Expr) \<Rightarrow> SQLNode list \<Rightarrow> error + SQLNode list" where
  "Rewrite getExprFor (ColNameExpr c) =
     (case getExprFor (cn_Name c) of
        Inl (Panic m) \<Rightarrow> Inl (Panic m)
      | Inl err \<Rightarrow> Inr (ColNameExpr c)
      | Inr exp \<Rightarrow> Inr exp)"
| "Rewrite getExprFor (PtrExpr p cs) =
     (case Rewrite_children getExprFor cs of Inl err \<Rightarrow> Inl err | Inr cs' \<Rightarrow> Inr (PtrExpr p cs'))"
| "Rewrite getExprFor (ValTuple cs) =
     (case Rewrite_children getExprFor cs of Inl err \<Rightarrow> Inl err | Inr cs' \<Rightarrow> Inr (ValTuple cs'))"
| "Rewrite getExprFor (OtherNode p cs) =
     (case Rewrite_children getExprFor cs of Inl err \<Rightarrow> Inl err | Inr cs' \<Rightarrow> Inr (OtherNode p cs'))"
| "Rewrite_children getExprFor [] = Inr []"
| "Rewrite_children getExprFor (n # ns) =
     (case Rewrite getExprFor n of
        Inl err \<Rightarrow> Inl err
      | Inr n' \<Rightarrow>
          (case Rewrite_children getExprFor ns of Inl err \<Rightarrow> Inl err | Inr ns' \<Rightarrow> Inr (n' # ns')))"

text \<open>
  \<^verbatim>\<open>RewriteDerivedExpression\<close> drops what \<^verbatim>\<open>sqlparser.Rewrite\<close> returns and returns
  \<^verbatim>\<open>newExpr, nil\<close>: the root of the copy, with the slots below it rewritten. When the root
  itself is a column, the variable \<^verbatim>\<open>newExpr\<close> still holds that column.
\<close>

definition RewriteDerivedExpression_with ::
  "(string \<Rightarrow> error + Expr) \<Rightarrow> (nat \<Rightarrow> nat) \<Rightarrow> Expr \<Rightarrow> error + Expr" where
  "RewriteDerivedExpression_with getExprFor reloc expr =
     (let newExpr = CloneExpr reloc expr in
      case Rewrite getExprFor newExpr of
        Inl err \<Rightarrow> Inl err
      | Inr rewritten \<Rightarrow>
          (case newExpr of ColNameExpr c \<Rightarrow> Inr newExpr | _ \<Rightarrow> Inr rewritten))"

definition RewriteDerivedExpression :: "(nat \<Rightarrow> nat) \<Rightarrow> Expr \<Rightarrow> TableInfo \<Rightarrow> error + Expr" where
  "RewriteDerivedExpression reloc expr vt = RewriteDerivedExpression_with (GetExprFor vt) reloc expr"

section \<open>Notions of the claims\<close>

text \<open>The population count of a natural number: the sum of its binary digits.\<close>

fun popcount_nat :: "nat \<Rightarrow> nat" where
  "popcount_nat n = (if n = 0 then 0 else n mod 2 + popcount_nat (n div 2))"

text \<open>
  \<^verbatim>\<open>strings.EqualFold\<close> on ASCII strings. When every byte of both strings is below
  \<open>0x80\<close>, the Go function compares them byte by byte, a letter \<open>A\<close> to \<open>Z\<close> being equal
  to its lower-case letter also. A string with a byte from \<open>0x80\<close> on is compared by the
  Unicode tables, which are not given here: there the answer is \<open>None\<close>.
\<close>

definition isASCII :: "string \<Rightarrow> bool" where
  "isASCII s = list_all (\<lambda>c. (of_char c :: nat) < 128) s"

definition lowerASCII :: "char \<Rightarrow> char" where
  "lowerASCII c = (let n = (of_char c :: nat) in if 65 \<le> n \<and> n \<le> 90 then char_of (n + 32) else c)"

definition EqualFold_ASCII :: "string \<Rightarrow> string \<Rightarrow> bool option" where
  "EqualFold_ASCII s t =
     (if isASCII s \<and> isASCII t then Some (map lowerASCII s = map lowerASCII t) else None)"

text \<open>The comparison that holds where \<open>EqualFold_ASCII\<close> knows the strings to be equal.\<close>

definition equalASCII :: EqualFold where
  "equalASCII s t = (EqualFold_ASCII s t = Some True)"

text \<open>The nodes of a tree, the root first: the sub-expressions that a walk can reach.\<close>

fun subnodes :: "SQLNode \<Rightarrow> SQLNode list" where
  "subnodes (ColNameExpr c) = [ColNameExpr c]"
| "subnodes (PtrExpr p cs) = PtrExpr p cs # concat (map subnodes cs)"
| "subnodes (ValTuple cs) = ValTuple cs # concat (map subnodes cs)"
| "subnodes (OtherNode p cs) = OtherNode p cs # concat (map subnodes cs)"

text \<open>
  The rewriting in the words of the spec: every column reference that \<^verbatim>\<open>GetExprFor\<close>
  resolves is replaced by the projection expression, which is not rewritten further;
  every other node stays.
\<close>

fun replaceResolvable :: "(string \<Rightarrow> error + Expr) \<Rightarrow> SQLNode \<Rightarrow> SQLNode" where
  "replaceResolvable getExprFor (ColNameExpr c) =
     (case getExprFor (cn_Name c) of Inr projection \<Rightarrow> projection | Inl err \<Rightarrow> ColNameExpr c)"
| "replaceResolvable getExprFor (PtrExpr p cs) = PtrExpr p (map (replaceResolvable getExprFor) cs)"
| "replaceResolvable getExprFor (ValTuple cs) = ValTuple (map (replaceResolvable getExprFor) cs)"
| "replaceResolvable getExprFor (OtherNode p cs) = OtherNode p (map (replaceResolvable getExprFor) cs)"

section \<open>Example inputs\<close>

text \<open>
  The table registered as number \<open>i\<close>: its node has address \<open>i\<close>, its name is \<open>i + 1\<close>
  times the letter \<open>t\<close>, so different numbers give different names and different nodes.
\<close>

definition nthTable :: "nat \<Rightarrow> TableInfo" where
  "nthTable i = AliasedTable (replicate (Suc i) CHR ''t'')
     \<lparr>ate_addr = i, ate_TableName = Inr \<lparr>tn_Name = replicate (Suc i) CHR ''t'', tn_Qualifier = []\<rparr>\<rparr>
     None False"

text \<open>Column references \<open>a\<close>, \<open>b\<close>, \<open>foo\<close> and \<open>id\<close>, each a node of its own.\<close>

definition colA :: ColName where
  "colA = \<lparr>cn_addr = 1, cn_Name = ''a'', cn_Qualifier = \<lparr>tn_Name = [], tn_Qualifier = []\<rparr>\<rparr>"

definition colB :: ColName where
  "colB = \<lparr>cn_addr = 2, cn_Name = ''b'', cn_Qualifier = \<lparr>tn_Name = [], tn_Qualifier = []\<rparr>\<rparr>"

definition colFoo :: ColName where
  "colFoo = \<lparr>cn_addr = 1, cn_Name = ''foo'', cn_Qualifier = \<lparr>tn_Name = [], tn_Qualifier = []\<rparr>\<rparr>"

definition colId :: ColName where
  "colId = \<lparr>cn_addr = 2, cn_Name = ''id'', cn_Qualifier = \<lparr>tn_Name = [], tn_Qualifier = []\<rparr>\<rparr>"

text \<open>
  The \<^verbatim>\<open>GetExprFor\<close> of a derived table that defines \<open>foo\<close> as an expression over \<open>id\<close>
  and no other column.
\<close>

definition derivedExprFor :: "string \<Rightarrow> error + Expr" where
  "derivedExprFor s =
     (if s = ''foo'' then Inr (PtrExpr 9 [ColNameExpr colId, PtrExpr 10 []])
      else Inl (VtError Code_INTERNAL None ''Unknown column''))"

section \<open>Properties of table sets\<close>

declare popcount_nat.simps [simp del]

lemma popcount_nat_0 [simp]: "popcount_nat 0 = 0"
  by (simp add: popcount_nat.simps)

lemma popcount_nat_double: "popcount_nat (2 * k) = popcount_nat k"
  by (subst popcount_nat.simps) simp

lemma popcount_nat_double1: "popcount_nat (Suc (2 * k)) = Suc (popcount_nat k)"
  by (subst popcount_nat.simps) simp

lemma kernighan_nat: "0 < n \<Longrightarrow> Suc (popcount_nat (n AND (n - 1))) = popcount_nat n"
proof (induction n rule: less_induct)
  case (less n)
  show ?case
  proof (cases "even n")
    case True
    then obtain k where k: "n = 2 * k" by (auto elim: evenE)
    with less.prems have kpos: "0 < k" by simp
    then have pred: "n - 1 = 2 * (k - 1) + 1" using k by simp
    have "n AND (n - 1) = 2 * (k AND (k - 1))"
      unfolding pred unfolding k by (subst and_nat_rec) simp
    moreover have "Suc (popcount_nat (k AND (k - 1))) = popcount_nat k"
      using less.IH [of k] kpos k by simp
    ultimately show ?thesis by (simp add: popcount_nat_double k)
  next
    case False
    then obtain k where k: "n = 2 * k + 1" by (auto elim: oddE)
    have "n AND (n - 1) = 2 * k"
      unfolding k by (subst and_nat_rec) simp
    then show ?thesis by (simp add: popcount_nat_double popcount_nat_double1 k)
  qed
qed

lemma bits_nat_split:
  "{i. bit (n::nat) i} = (if odd n then {0} else {}) \<union> Suc ` {i. bit (n div 2) i}"
proof (rule set_eqI)
  fix i show "i \<in> {i. bit n i} \<longleftrightarrow> i \<in> (if odd n then {0} else {}) \<union> Suc ` {i. bit (n div 2) i}"
    by (cases i) (auto simp: bit_0 bit_Suc)
qed

lemma finite_bits_nat: "finite {i. bit (n::nat) i}"
proof (induction n rule: less_induct)
  case (less n)
  show ?case
  proof (cases "n = 0")
    case True
    then show ?thesis by simp
  next
    case False
    then have "finite {i. bit (n div 2) i}" by (intro less.IH) simp
    then show ?thesis by (subst bits_nat_split) simp
  qed
qed

lemma popcount_nat_card: "popcount_nat n = card {i. bit n i}"
proof (induction n rule: less_induct)
  case (less n)
  show ?case
  proof (cases "n = 0")
    case True
    then show ?thesis by simp
  next
    case False
    then have lt: "n div 2 < n" by simp
    have fin: "finite {i. bit (n div 2) i}" by (rule finite_bits_nat)
    have "card {i. bit n i} = (if odd n then 1 else 0) + card (Suc ` {i. bit (n div 2) i})"
      by (subst bits_nat_split, subst card_Un_disjoint) (auto simp: fin)
    also have "card (Suc ` {i. bit (n div 2) i}) = card {i. bit (n div 2) i}"
      by (rule card_image) simp
    also have "\<dots> = popcount_nat (n div 2)" using less.IH [OF lt] by simp
    finally show ?thesis using False
      by (subst popcount_nat.simps) (auto simp: odd_iff_mod_2_eq_one)
  qed
qed

lemma bits_unat: "{i. bit (unat w) i} = {i. bit w i}" for w :: "'a::len word"
  by (auto simp: bit_unsigned_iff)

lemma unat_and_pred: "ts \<noteq> 0 \<Longrightarrow> unat (ts AND (ts - 1)) = unat ts AND (unat ts - 1)"
  for ts :: "'a::len word"
  by (simp add: unsigned_and_eq unat_minus_one)

lemma NumberOfTables_loop_popcount:
  "NumberOfTables_loop ts count = count + popcount_nat (unat ts)"
proof (induction ts count rule: NumberOfTables_loop.induct)
  case (1 ts count)
  show ?case
  proof (cases "ts = 0")
    case True
    then show ?thesis by (subst NumberOfTables_loop.simps) simp
  next
    case False
    then have pos: "0 < ts" by (simp add: word_gt_0)
    have upos: "0 < unat ts" using False by (simp add: unat_gt_0)
    have "NumberOfTables_loop ts count = NumberOfTables_loop (ts AND (ts - 1)) (count + 1)"
      using pos by (subst NumberOfTables_loop.simps) simp
    also have "\<dots> = count + 1 + popcount_nat (unat (ts AND (ts - 1)))"
      using "1.IH" [OF pos] .
    also have "\<dots> = count + popcount_nat (unat ts)"
      using kernighan_nat [OF upos] by (simp add: unat_and_pred [OF False])
    finally show ?thesis .
  qed
qed

lemma NumberOfTables_card: "NumberOfTables ts = card {i. bit ts i}"
  by (simp add: NumberOfTables_def NumberOfTables_loop_popcount popcount_nat_card bits_unat)

lemma bit_TableSet_less: "bit (w::TableSet) i \<Longrightarrow> i < 64"
  by (drule bit_imp_le_length) simp

lemma overlapping_bits: "IsOverlapping a b \<longleftrightarrow> (\<exists>i. bit a i \<and> bit b i)"
  by (auto simp: IsOverlapping_def bit_eq_iff bit_and_iff dest: bit_TableSet_less)

lemma solved_bits: "IsSolvedBy a b \<longleftrightarrow> (\<forall>i. bit a i \<longrightarrow> bit b i)"
  by (auto simp: IsSolvedBy_def bit_eq_iff bit_and_iff dest: bit_TableSet_less)

lemma singletons_disjoint:
  "i \<noteq> j \<Longrightarrow> \<not> IsOverlapping (push_bit i 1) (push_bit j 1)"
  by (auto simp: overlapping_bits bit_exp_iff)

text \<open>
  Claim C7. \<open>IsOverlapping a b\<close> holds iff \<open>a AND b\<close> is not 0, that is iff the sets share a
  table; \<open>IsSolvedBy a b\<close> holds iff \<open>a AND b = a\<close>, that is iff every table of \<open>a\<close> is in
  \<open>b\<close>; \<open>NumberOfTables a\<close> is the number of bits set in \<open>a\<close>. So \<open>IsSolvedBy a a\<close> holds
  for every \<open>a\<close>, and two singleton sets of different tables do not overlap.
\<close>

theorem TableSet_algebra:
  "(IsOverlapping a b \<longleftrightarrow> a AND b \<noteq> 0)
   \<and> (IsOverlapping a b \<longleftrightarrow> (\<exists>i. bit a i \<and> bit b i))
   \<and> (IsSolvedBy a b \<longleftrightarrow> a AND b = a)
   \<and> (IsSolvedBy a b \<longleftrightarrow> (\<forall>i. bit a i \<longrightarrow> bit b i))
   \<and> NumberOfTables a = card {i. bit a i}
   \<and> IsSolvedBy a a
   \<and> (\<forall>i j. i < 64 \<longrightarrow> j < 64 \<longrightarrow> i \<noteq> j \<longrightarrow>
         \<not> IsOverlapping (push_bit i 1) (push_bit j 1))"
proof -
  have "IsOverlapping a b \<longleftrightarrow> a AND b \<noteq> 0" by (simp add: IsOverlapping_def)
  moreover have "IsSolvedBy a b \<longleftrightarrow> a AND b = a" by (simp add: IsSolvedBy_def)
  moreover have "IsSolvedBy a a" by (simp add: IsSolvedBy_def)
  ultimately show ?thesis
    using overlapping_bits [of a b] solved_bits [of a b] NumberOfTables_card [of a]
      singletons_disjoint by blast
qed

theorem TableSet_algebra_witness:
  "(3::nat) < 64 \<and> (5::nat) < 64 \<and> (3::nat) \<noteq> 5
   \<and> \<not> IsOverlapping (push_bit 3 1) (push_bit 5 1)
   \<and> bit (6::TableSet) 1 \<and> bit (3::TableSet) 1 \<and> IsOverlapping 6 3
   \<and> \<not> IsSolvedBy 6 3 \<and> IsSolvedBy 6 6
   \<and> NumberOfTables 6 = 2 \<and> card {i. bit (6::TableSet) i} = 2"
proof -
  note T = TableSet_algebra [of 6 3]
  from T have d: "\<forall>i j. i < 64 \<longrightarrow> j < 64 \<longrightarrow> i \<noteq> j \<longrightarrow>
         \<not> IsOverlapping (push_bit i 1) (push_bit j 1)" by blast
  have d35: "\<not> IsOverlapping (push_bit 3 1) (push_bit 5 1)"
    using d [rule_format, of 3 5] by simp
  have b: "bit (6::TableSet) 1 \<and> bit (3::TableSet) 1" by simp
  from T have "IsOverlapping 6 3 \<longleftrightarrow> (\<exists>i. bit (6::TableSet) i \<and> bit (3::TableSet) i)" by blast
  with b have ov: "IsOverlapping 6 3" by blast
  from T have "IsSolvedBy 6 3 \<longleftrightarrow> (6::TableSet) AND 3 = 6" by blast
  then have ns: "\<not> IsSolvedBy 6 3" by simp
  from T have s: "IsSolvedBy 6 6" by blast
  have n: "NumberOfTables 6 = 2" by (simp add: NumberOfTables_def NumberOfTables_loop.simps)
  from T have "NumberOfTables 6 = card {i. bit (6::TableSet) i}" by blast
  with n have c: "card {i. bit (6::TableSet) i} = 2" by simp
  show ?thesis using d35 b ov ns s n c by simp
qed

section \<open>Properties of the table information\<close>

subsection \<open>The table set of a registered table\<close>

lemma TableSetFor_loop_first:
  "i < length ts \<Longrightarrow>
   ate_addr t = ate_addr (GetExpr (ts ! i)) \<Longrightarrow>
   (\<forall>j<i. ate_addr (GetExpr (ts ! j)) \<noteq> ate_addr t) \<Longrightarrow>
   TableSetFor_loop ts k t = push_bit (k + i) 1"
proof (induction ts arbitrary: i k)
  case Nil
  then show ?case by simp
next
  case (Cons t2 ts)
  show ?case
  proof (cases i)
    case 0
    with Cons.prems show ?thesis by simp
  next
    case (Suc i')
    with Cons.prems(3) have ne: "ate_addr t \<noteq> ate_addr (GetExpr t2)"
      by (metis nth_Cons_0 zero_less_Suc)
    have "\<forall>j<i'. ate_addr (GetExpr (ts ! j)) \<noteq> ate_addr t"
      using Cons.prems(3) Suc by (metis Suc_less_eq nth_Cons_Suc)
    with Cons.IH [of i' "Suc k"] Cons.prems(1,2) Suc
    have "TableSetFor_loop ts (Suc k) t = push_bit (Suc k + i') 1" by simp
    with ne Suc show ?thesis by simp
  qed
qed

subsection \<open>The scan for a column name\<close>

lemma depsScan_None_iff:
  "depsScan equalFold cols colName = None \<longleftrightarrow> (\<forall>c\<in>set cols. \<not> equalFold (ci_Name c) colName)"
  by (induction cols) auto

lemma depsScan_first:
  "(\<forall>c\<in>set pre. \<not> equalFold (ci_Name c) colName) \<Longrightarrow> equalFold (ci_Name info) colName \<Longrightarrow>
   depsScan equalFold (pre @ info # rest) colName = Some info"
  by (induction pre) auto

lemma depsScan_Some:
  "depsScan equalFold cols colName = Some info \<Longrightarrow> info \<in> set cols \<and> equalFold (ci_Name info) colName"
  by (induction cols) (auto split: if_splits)

lemma catalogColumns_eq:
  "catalogColumns cs cols nameMap =
     (cols @ map (\<lambda>c. \<lparr>ci_Name = Column_Name c, ci_Type = Column_Type c\<rparr>) cs,
      nameMap \<union> set (map Column_Name cs))"
  by (induction cs arbitrary: cols nameMap) auto

text \<open>
  Claim C3. For an aliased table \<open>a\<close> and a column name, \<open>Dependencies\<close> scans the columns
  of \<open>a\<close> from the front, comparing each name with the column name by \<^verbatim>\<open>strings.EqualFold\<close>,
  the equality without regard to case of the Go library, with \<open>ts\<close> the table set that
  \<open>org\<close> gives for the node of \<open>a\<close>. The first column whose name matches gives Certain
  with the type of that column and \<open>ts\<close>, so whenever some column matches the result is
  Certain for a matching column; when no column matches, the result is Absent for an
  authoritative table and Uncertain for any other. When \<open>org\<close> is a semantic table that
  holds the node of \<open>a\<close> first at an index \<open>i\<close> below 64, \<open>ts\<close> is the singleton set of \<open>i\<close>.
  This holds whatever the comparison answers. For a comparison that answers on ASCII
  strings as \<^verbatim>\<open>strings.EqualFold\<close> does, the last two parts say it for ASCII names: the
  first column whose name is the column name up to the case of letters gives Certain,
  and when no column is, the result is Absent or Uncertain.
\<close>

theorem AliasedTable_Dependencies_scan:
  fixes equalFold :: EqualFold and tableName ASTNode Table isInfSchema colName org
  defines "a \<equiv> AliasedTable tableName ASTNode Table isInfSchema"
  defines "ts \<equiv> org ASTNode"
  shows "(\<forall>pre info rest.
            GetColumns a = pre @ info # rest
            \<and> (\<forall>c\<in>set pre. \<not> equalFold (ci_Name c) colName)
            \<and> equalFold (ci_Name info) colName
            \<longrightarrow> TableInfo_Dependencies equalFold a colName org = Inr (createCertain ts ts (ci_Type info)))
       \<and> ((\<exists>c\<in>set (GetColumns a). equalFold (ci_Name c) colName)
            \<longrightarrow> (\<exists>c\<in>set (GetColumns a). equalFold (ci_Name c) colName
                   \<and> TableInfo_Dependencies equalFold a colName org = Inr (createCertain ts ts (ci_Type c))))
       \<and> ((\<forall>c\<in>set (GetColumns a). \<not> equalFold (ci_Name c) colName) \<and> Authoritative a
            \<longrightarrow> TableInfo_Dependencies equalFold a colName org = Inr nothing)
       \<and> ((\<forall>c\<in>set (GetColumns a). \<not> equalFold (ci_Name c) colName) \<and> \<not> Authoritative a
            \<longrightarrow> TableInfo_Dependencies equalFold a colName org = Inr (createUncertain ts ts))
       \<and> (\<forall>st i. org = TableSetFor st \<and> i < length (Tables st) \<and> i < 64
              \<and> ate_addr ASTNode = ate_addr (GetExpr (Tables st ! i))
              \<and> (\<forall>j<i. ate_addr (GetExpr (Tables st ! j)) \<noteq> ate_addr ASTNode)
            \<longrightarrow> ts = push_bit i 1)
       \<and> (\<forall>pre info rest.
            (\<forall>s t b. EqualFold_ASCII s t = Some b \<longrightarrow> equalFold s t = b)
            \<and> GetColumns a = pre @ info # rest
            \<and> (\<forall>c\<in>set pre. EqualFold_ASCII (ci_Name c) colName = Some False)
            \<and> EqualFold_ASCII (ci_Name info) colName = Some True
            \<longrightarrow> TableInfo_Dependencies equalFold a colName org
                  = Inr (createCertain ts ts (ci_Type info)))
       \<and> ((\<forall>s t b. EqualFold_ASCII s t = Some b \<longrightarrow> equalFold s t = b)
            \<and> (\<forall>c\<in>set (GetColumns a). EqualFold_ASCII (ci_Name c) colName = Some False)
            \<longrightarrow> TableInfo_Dependencies equalFold a colName org
                  = (if Authoritative a then Inr nothing else Inr (createUncertain ts ts)))"
proof (intro conjI allI impI)
  fix pre info rest
  assume "GetColumns a = pre @ info # rest
            \<and> (\<forall>c\<in>set pre. \<not> equalFold (ci_Name c) colName)
            \<and> equalFold (ci_Name info) colName"
  then have "depsScan equalFold (GetColumns a) colName = Some info"
    using depsScan_first [of pre equalFold colName info rest] by simp
  then show "TableInfo_Dependencies equalFold a colName org = Inr (createCertain ts ts (ci_Type info))"
    by (simp add: a_def ts_def depsForAliasedAndRealTables_def Let_def)
next
  assume "\<exists>c\<in>set (GetColumns a). equalFold (ci_Name c) colName"
  then have "depsScan equalFold (GetColumns a) colName \<noteq> None"
    by (simp add: depsScan_None_iff)
  then obtain info where s: "depsScan equalFold (GetColumns a) colName = Some info" by blast
  from depsScan_Some [OF s] s
  show "\<exists>c\<in>set (GetColumns a). equalFold (ci_Name c) colName
          \<and> TableInfo_Dependencies equalFold a colName org = Inr (createCertain ts ts (ci_Type c))"
    by (intro bexI [of _ info]) (simp_all add: a_def ts_def depsForAliasedAndRealTables_def Let_def)
next
  assume "(\<forall>c\<in>set (GetColumns a). \<not> equalFold (ci_Name c) colName) \<and> Authoritative a"
  then have "depsScan equalFold (GetColumns a) colName = None" and "Authoritative a"
    by (simp_all add: depsScan_None_iff)
  then show "TableInfo_Dependencies equalFold a colName org = Inr nothing"
    by (simp add: a_def ts_def depsForAliasedAndRealTables_def Let_def)
next
  assume "(\<forall>c\<in>set (GetColumns a). \<not> equalFold (ci_Name c) colName) \<and> \<not> Authoritative a"
  then have "depsScan equalFold (GetColumns a) colName = None" and "\<not> Authoritative a"
    by (simp_all add: depsScan_None_iff)
  then show "TableInfo_Dependencies equalFold a colName org = Inr (createUncertain ts ts)"
    by (simp add: a_def ts_def depsForAliasedAndRealTables_def Let_def)
next
  fix st i
  assume "org = TableSetFor st \<and> i < length (Tables st) \<and> i < 64
              \<and> ate_addr ASTNode = ate_addr (GetExpr (Tables st ! i))
              \<and> (\<forall>j<i. ate_addr (GetExpr (Tables st ! j)) \<noteq> ate_addr ASTNode)"
  then have "org = TableSetFor st" and "i < length (Tables st)"
    and "ate_addr ASTNode = ate_addr (GetExpr (Tables st ! i))"
    and "\<forall>j<i. ate_addr (GetExpr (Tables st ! j)) \<noteq> ate_addr ASTNode"
    by blast+
  then show "ts = push_bit i 1"
    using TableSetFor_loop_first [of i "Tables st" ASTNode 0]
    by (simp add: ts_def TableSetFor_def)
next
  fix pre info rest
  assume h: "(\<forall>s t b. EqualFold_ASCII s t = Some b \<longrightarrow> equalFold s t = b)
            \<and> GetColumns a = pre @ info # rest
            \<and> (\<forall>c\<in>set pre. EqualFold_ASCII (ci_Name c) colName = Some False)
            \<and> EqualFold_ASCII (ci_Name info) colName = Some True"
  then have "\<forall>c\<in>set pre. \<not> equalFold (ci_Name c) colName"
    and "equalFold (ci_Name info) colName"
    by blast+
  with h have "depsScan equalFold (GetColumns a) colName = Some info"
    using depsScan_first [of pre equalFold colName info rest] by simp
  then show "TableInfo_Dependencies equalFold a colName org
               = Inr (createCertain ts ts (ci_Type info))"
    by (simp add: a_def ts_def depsForAliasedAndRealTables_def Let_def)
next
  assume h: "(\<forall>s t b. EqualFold_ASCII s t = Some b \<longrightarrow> equalFold s t = b)
            \<and> (\<forall>c\<in>set (GetColumns a). EqualFold_ASCII (ci_Name c) colName = Some False)"
  then have "\<forall>c\<in>set (GetColumns a). \<not> equalFold (ci_Name c) colName"
    by blast
  then have "depsScan equalFold (GetColumns a) colName = None"
    by (simp add: depsScan_None_iff)
  then show "TableInfo_Dependencies equalFold a colName org
               = (if Authoritative a then Inr nothing else Inr (createUncertain ts ts))"
    by (simp add: a_def ts_def depsForAliasedAndRealTables_def Let_def)
qed

text \<open>
  Witness for C3: the table of the spec with the columns \<open>id\<close> and \<open>name\<close>, registered
  first in the semantic table, and the comparison of ASCII strings. \<open>ID\<close> resolves to
  Certain with the type of \<open>id\<close>, and \<open>Name\<close> to Certain with the type of \<open>name\<close>; \<open>missing\<close>
  is Absent when the table is authoritative, and Uncertain when it is not.
\<close>

theorem AliasedTable_Dependencies_scan_witness:
  fixes n :: AliasedTableExpr and org :: originable
  defines "n \<equiv> \<lparr>ate_addr = 7, ate_TableName = Inr \<lparr>tn_Name = ''t'', tn_Qualifier = []\<rparr>\<rparr>"
  defines "org \<equiv> TableSetFor \<lparr>Tables = [AliasedTable ''t'' n None False], Recursive = None,
                                Direct = None, ColumnEqualities = None\<rparr>"
  shows "TableInfo_Dependencies equalASCII (AliasedTable ''t'' n
             (Some \<lparr>Columns = [\<lparr>Column_Name = ''id'', Column_Type = 265\<rparr>,
                               \<lparr>Column_Name = ''name'', Column_Type = 6165\<rparr>],
                    ColumnListAuthoritative = True, ColumnVindexes = []\<rparr>) False) ''ID'' org
           = Inr (createCertain 1 1 265)
       \<and> TableInfo_Dependencies equalASCII (AliasedTable ''t'' n
             (Some \<lparr>Columns = [\<lparr>Column_Name = ''id'', Column_Type = 265\<rparr>,
                               \<lparr>Column_Name = ''name'', Column_Type = 6165\<rparr>],
                    ColumnListAuthoritative = True, ColumnVindexes = []\<rparr>) False) ''missing'' org
           = Inr nothing
       \<and> TableInfo_Dependencies equalASCII (AliasedTable ''t'' n
             (Some \<lparr>Columns = [\<lparr>Column_Name = ''id'', Column_Type = 265\<rparr>,
                               \<lparr>Column_Name = ''name'', Column_Type = 6165\<rparr>],
                    ColumnListAuthoritative = False, ColumnVindexes = []\<rparr>) False) ''missing'' org
           = Inr (createUncertain 1 1)
       \<and> TableInfo_Dependencies equalASCII (AliasedTable ''t'' n
             (Some \<lparr>Columns = [\<lparr>Column_Name = ''id'', Column_Type = 265\<rparr>,
                               \<lparr>Column_Name = ''name'', Column_Type = 6165\<rparr>],
                    ColumnListAuthoritative = True, ColumnVindexes = []\<rparr>) False) ''Name'' org
           = Inr (createCertain 1 1 6165)"
proof -
  let ?cols = "[\<lparr>Column_Name = ''id'', Column_Type = 265\<rparr>, \<lparr>Column_Name = ''name'', Column_Type = 6165\<rparr>]"
  let ?t = "\<lambda>auth. AliasedTable ''t'' n
             (Some \<lparr>Columns = ?cols, ColumnListAuthoritative = auth, ColumnVindexes = []\<rparr>) False"
  have cols: "GetColumns (?t auth) = [\<lparr>ci_Name = ''id'', ci_Type = 265\<rparr>, \<lparr>ci_Name = ''name'', ci_Type = 6165\<rparr>]"
    for auth by (simp add: vindexTableToColumnInfo_def catalogColumns_eq)
  have reg: "org = TableSetFor \<lparr>Tables = [AliasedTable ''t'' n None False], Recursive = None,
                                Direct = None, ColumnEqualities = None\<rparr>
      \<and> 0 < length (Tables \<lparr>Tables = [AliasedTable ''t'' n None False], Recursive = None,
                                Direct = None, ColumnEqualities = None\<rparr>) \<and> (0::nat) < 64
      \<and> ate_addr n = ate_addr (GetExpr (Tables \<lparr>Tables = [AliasedTable ''t'' n None False],
                                Recursive = None, Direct = None, ColumnEqualities = None\<rparr> ! 0))
      \<and> (\<forall>j<0. ate_addr (GetExpr (Tables \<lparr>Tables = [AliasedTable ''t'' n None False],
                                Recursive = None, Direct = None, ColumnEqualities = None\<rparr> ! j))
                 \<noteq> ate_addr n)"
    by (simp add: org_def)
  have ts: "org n = 1"
    using AliasedTable_Dependencies_scan [of "''t''" n None False equalASCII "''id''" org,
        THEN conjunct2, THEN conjunct2, THEN conjunct2, THEN conjunct2, THEN conjunct1,
        rule_format, OF reg]
    by simp
  have f1: "equalASCII ''id'' ''ID''" by code_simp
  have f2: "\<not> equalASCII ''id'' ''missing''" by code_simp
  have f3: "\<not> equalASCII ''name'' ''missing''" by code_simp
  have auth: "Authoritative (?t True)" "\<not> Authoritative (?t False)" by simp_all
  note T = AliasedTable_Dependencies_scan [of "''t''" n _ False equalASCII _ org]
  have "TableInfo_Dependencies equalASCII (?t True) ''ID'' org = Inr (createCertain 1 1 265)"
    using T [of "Some \<lparr>Columns = ?cols, ColumnListAuthoritative = True, ColumnVindexes = []\<rparr>" "''ID''",
        THEN conjunct1, rule_format, of "[]" "\<lparr>ci_Name = ''id'', ci_Type = 265\<rparr>" "[\<lparr>ci_Name = ''name'', ci_Type = 6165\<rparr>]"]
      cols [of True] f1 ts by simp
  moreover have "TableInfo_Dependencies equalASCII (?t True) ''missing'' org = Inr nothing"
    using T [of "Some \<lparr>Columns = ?cols, ColumnListAuthoritative = True, ColumnVindexes = []\<rparr>" "''missing''",
        THEN conjunct2, THEN conjunct2, THEN conjunct1]
      cols [of True] f2 f3 auth by simp
  moreover have "TableInfo_Dependencies equalASCII (?t False) ''missing'' org = Inr (createUncertain 1 1)"
    using T [of "Some \<lparr>Columns = ?cols, ColumnListAuthoritative = False, ColumnVindexes = []\<rparr>" "''missing''",
        THEN conjunct2, THEN conjunct2, THEN conjunct2, THEN conjunct1]
      cols [of False] f2 f3 auth ts by simp
  moreover have "TableInfo_Dependencies equalASCII (?t True) ''Name'' org
      = Inr (createCertain 1 1 6165)"
  proof -
    have agree: "\<forall>s t b. EqualFold_ASCII s t = Some b \<longrightarrow> equalASCII s t = b"
      by (auto simp: equalASCII_def)
    have g1: "EqualFold_ASCII ''id'' ''Name'' = Some False" by code_simp
    have g2: "EqualFold_ASCII ''name'' ''Name'' = Some True" by code_simp
    show ?thesis
      using T [of "Some \<lparr>Columns = ?cols, ColumnListAuthoritative = True, ColumnVindexes = []\<rparr>" "''Name''",
          THEN conjunct2, THEN conjunct2, THEN conjunct2, THEN conjunct2, THEN conjunct2,
          THEN conjunct1, rule_format,
          of "[\<lparr>ci_Name = ''id'', ci_Type = 265\<rparr>]" "\<lparr>ci_Name = ''name'', ci_Type = 6165\<rparr>" "[]"]
        cols [of True] agree g1 g2 ts by simp
  qed
  ultimately show ?thesis by simp
qed

subsection \<open>Matching a table name\<close>

text \<open>
  Claim C9, as stated, asks that some qualified name matches the table. No name with a
  qualifier matches the aliased table \<open>t\<close>.
\<close>

theorem Matches_counterexample:
  "\<not> (\<exists>name. \<not> IsEmpty (tn_Qualifier name)
        \<and> Matches (AliasedTable ''t'' \<lparr>ate_addr = 7, ate_TableName = Inr \<lparr>tn_Name = ''t'', tn_Qualifier = []\<rparr>\<rparr> None False) name)"
  by simp

text \<open>
  Claim C9, amended. \<open>Matches\<close> of an aliased table holds exactly for the names without
  qualifier whose name is the \<open>tableName\<close> of the table, compared as written: the
  unqualified name of the table matches, a qualified name never does. A vindex table
  answers as the table it wraps.
\<close>

theorem Matches_unqualified_only:
  fixes tableName ASTNode Table isInfSchema
  defines "a \<equiv> AliasedTable tableName ASTNode Table isInfSchema"
  shows "(Matches a name \<longleftrightarrow> tn_Name name = tableName \<and> tn_Qualifier name = [])
       \<and> Matches a \<lparr>tn_Name = tableName, tn_Qualifier = []\<rparr>
       \<and> (\<forall>n q. q \<noteq> [] \<longrightarrow> \<not> Matches a \<lparr>tn_Name = n, tn_Qualifier = q\<rparr>)
       \<and> Matches (VindexTable a v) name = Matches a name"
  by (auto simp: a_def IsEmpty_def)

text \<open>Witness for C9: the table \<open>t\<close> is matched by \<open>t\<close> and not by \<open>ks.t\<close>.\<close>

theorem Matches_unqualified_only_witness:
  "''ks'' \<noteq> [] \<and> \<not> Matches (AliasedTable ''t'' \<lparr>ate_addr = 7, ate_TableName = Inr \<lparr>tn_Name = ''t'', tn_Qualifier = []\<rparr>\<rparr> None False)
        \<lparr>tn_Name = ''t'', tn_Qualifier = ''ks''\<rparr>
    \<and> Matches (AliasedTable ''t'' \<lparr>ate_addr = 7, ate_TableName = Inr \<lparr>tn_Name = ''t'', tn_Qualifier = []\<rparr>\<rparr> None False)
        \<lparr>tn_Name = ''t'', tn_Qualifier = []\<rparr>"
  using Matches_unqualified_only [of "''t''" "\<lparr>ate_addr = 7, ate_TableName = Inr \<lparr>tn_Name = ''t'', tn_Qualifier = []\<rparr>\<rparr>" None False]
  by simp

subsection \<open>The column list\<close>

lemma vindexColumns_extra:
  "\<exists>extra. vindexColumns names cols nameMap = (cols @ extra, nameMap \<union> set (map ci_Name extra))
     \<and> distinct (map ci_Name extra)
     \<and> set (map ci_Name extra) = set names - nameMap"
proof (induction names arbitrary: cols nameMap)
  case Nil
  then show ?case by simp
next
  case (Cons name rest)
  show ?case
  proof (cases "name \<in> nameMap")
    case True
    from Cons.IH [of cols nameMap] obtain extra where
      "vindexColumns rest cols nameMap = (cols @ extra, nameMap \<union> set (map ci_Name extra))"
      "distinct (map ci_Name extra)" "set (map ci_Name extra) = set rest - nameMap"
      by blast
    with True show ?thesis by (intro exI [of _ extra]) auto
  next
    case False
    let ?c = "\<lparr>ci_Name = name, ci_Type = 0\<rparr>"
    from Cons.IH [of "cols @ [?c]" "insert name nameMap"] obtain extra where e:
      "vindexColumns rest (cols @ [?c]) (insert name nameMap)
         = ((cols @ [?c]) @ extra, insert name nameMap \<union> set (map ci_Name extra))"
      "distinct (map ci_Name extra)" "set (map ci_Name extra) = set rest - insert name nameMap"
      by blast
    with False show ?thesis by (intro exI [of _ "?c # extra"]) auto
  qed
qed

lemma columnVindexes_extra:
  "\<exists>extra. columnVindexes vs cols nameMap = (cols @ extra, nameMap \<union> set (map ci_Name extra))
     \<and> distinct (map ci_Name extra)
     \<and> set (map ci_Name extra) = (\<Union>v\<in>set vs. set (cv_Columns v)) - nameMap"
proof (induction vs arbitrary: cols nameMap)
  case Nil
  then show ?case by simp
next
  case (Cons v rest)
  from vindexColumns_extra [of "cv_Columns v" cols nameMap] obtain e1 where e1:
    "vindexColumns (cv_Columns v) cols nameMap = (cols @ e1, nameMap \<union> set (map ci_Name e1))"
    "distinct (map ci_Name e1)" "set (map ci_Name e1) = set (cv_Columns v) - nameMap"
    by blast
  from Cons.IH [of "cols @ e1" "nameMap \<union> set (map ci_Name e1)"] obtain e2 where e2:
    "columnVindexes rest (cols @ e1) (nameMap \<union> set (map ci_Name e1))
       = ((cols @ e1) @ e2, (nameMap \<union> set (map ci_Name e1)) \<union> set (map ci_Name e2))"
    "distinct (map ci_Name e2)"
    "set (map ci_Name e2) = (\<Union>v\<in>set rest. set (cv_Columns v)) - (nameMap \<union> set (map ci_Name e1))"
    by blast
  have "columnVindexes (v # rest) cols nameMap
          = (cols @ (e1 @ e2), nameMap \<union> set (map ci_Name (e1 @ e2)))"
    using e1(1) e2(1) by (simp add: Un_assoc)
  moreover have "distinct (map ci_Name (e1 @ e2))"
    using e1(2) e2(2) e2(3) by auto
  moreover have "set (map ci_Name (e1 @ e2)) = (\<Union>v\<in>set (v # rest). set (cv_Columns v)) - nameMap"
    using e1(3) e2(3) by auto
  ultimately show ?case by blast
qed

text \<open>
  Claim C6, as stated, fails: with the catalog column \<open>ID\<close> and the vindex column \<open>id\<close>
  the list holds both, and the two names are equal without regard to case.
\<close>

theorem GetColumns_case_counterexample:
  "GetColumns (AliasedTable ''t'' \<lparr>ate_addr = 7, ate_TableName = Inr \<lparr>tn_Name = ''t'', tn_Qualifier = []\<rparr>\<rparr>
      (Some \<lparr>Columns = [\<lparr>Column_Name = ''ID'', Column_Type = 265\<rparr>],
             ColumnListAuthoritative = False,
             ColumnVindexes = [\<lparr>cv_Columns = [''id'']\<rparr>]\<rparr>) False)
     = [\<lparr>ci_Name = ''ID'', ci_Type = 265\<rparr>, \<lparr>ci_Name = ''id'', ci_Type = 0\<rparr>]
   \<and> EqualFold_ASCII ''ID'' ''id'' = Some True"
proof -
  have "EqualFold_ASCII ''ID'' ''id'' = Some True" by code_simp
  then show ?thesis by (simp add: vindexTableToColumnInfo_def)
qed

text \<open>
  Claim C6, amended. The column list of an aliased table with catalog information is the
  catalog columns, all of them and in order, followed by the added vindex columns. The
  added names are pairwise different as written and different from every catalog name as
  written; they are the vindex column names that are no catalog name when the table is
  not authoritative, and none when it is. So when the catalog names are pairwise
  different as written, so are the names of the whole list.
\<close>

theorem GetColumns_exact_names:
  fixes tableName ASTNode t isInfSchema
  defines "cols \<equiv> GetColumns (AliasedTable tableName ASTNode (Some t) isInfSchema)"
  defines "catalog \<equiv> map (\<lambda>c. \<lparr>ci_Name = Column_Name c, ci_Type = Column_Type c\<rparr>) (Columns t)"
  shows "\<exists>extra. cols = catalog @ extra
           \<and> distinct (map ci_Name extra)
           \<and> set (map ci_Name extra) \<inter> set (map ci_Name catalog) = {}
           \<and> set (map ci_Name extra) =
               (if ColumnListAuthoritative t then {}
                else (\<Union>v\<in>set (ColumnVindexes t). set (cv_Columns v)) - set (map ci_Name catalog))
           \<and> (distinct (map Column_Name (Columns t)) \<longrightarrow> distinct (map ci_Name cols))"
proof -
  have names: "map ci_Name catalog = map Column_Name (Columns t)"
    by (simp add: catalog_def comp_def)
  show ?thesis
  proof (cases "ColumnListAuthoritative t")
    case True
    then have "cols = catalog @ []"
      by (simp add: cols_def catalog_def vindexTableToColumnInfo_def catalogColumns_eq)
    with True names show ?thesis by (intro exI [of _ "[]"]) simp
  next
    case False
    from columnVindexes_extra [of "ColumnVindexes t" catalog "set (map Column_Name (Columns t))"]
    obtain extra where e:
      "columnVindexes (ColumnVindexes t) catalog (set (map Column_Name (Columns t)))
         = (catalog @ extra, set (map Column_Name (Columns t)) \<union> set (map ci_Name extra))"
      "distinct (map ci_Name extra)"
      "set (map ci_Name extra)
         = (\<Union>v\<in>set (ColumnVindexes t). set (cv_Columns v)) - set (map Column_Name (Columns t))"
      by blast
    have c: "cols = catalog @ extra"
      using False e(1) by (simp add: cols_def catalog_def vindexTableToColumnInfo_def catalogColumns_eq)
    have d: "set (map ci_Name extra) \<inter> set (map ci_Name catalog) = {}"
      using e(3) names by auto
    have "distinct (map Column_Name (Columns t)) \<longrightarrow> distinct (map ci_Name cols)"
      using c d e(2) names by auto
    with False c d e(2) e(3) names show ?thesis by (intro exI [of _ extra]) simp
  qed
qed

text \<open>
  Witness for C6: two catalog columns and two vindexes; the names of the resulting list
  are pairwise different as written.
\<close>

theorem GetColumns_exact_names_witness:
  "distinct (map Column_Name [\<lparr>Column_Name = ''ID'', Column_Type = 265\<rparr>, \<lparr>Column_Name = ''name'', Column_Type = 6165\<rparr>])
   \<and> distinct (map ci_Name (GetColumns (AliasedTable ''t'' \<lparr>ate_addr = 7, ate_TableName = Inr \<lparr>tn_Name = ''t'', tn_Qualifier = []\<rparr>\<rparr>
      (Some \<lparr>Columns = [\<lparr>Column_Name = ''ID'', Column_Type = 265\<rparr>, \<lparr>Column_Name = ''name'', Column_Type = 6165\<rparr>],
             ColumnListAuthoritative = False,
             ColumnVindexes = [\<lparr>cv_Columns = [''id'', ''name'']\<rparr>, \<lparr>cv_Columns = [''id'']\<rparr>]\<rparr>) False)))"
  using GetColumns_exact_names [of "''t''" "\<lparr>ate_addr = 7, ate_TableName = Inr \<lparr>tn_Name = ''t'', tn_Qualifier = []\<rparr>\<rparr>"
      "\<lparr>Columns = [\<lparr>Column_Name = ''ID'', Column_Type = 265\<rparr>, \<lparr>Column_Name = ''name'', Column_Type = 6165\<rparr>],
             ColumnListAuthoritative = False,
             ColumnVindexes = [\<lparr>cv_Columns = [''id'', ''name'']\<rparr>, \<lparr>cv_Columns = [''id'']\<rparr>]\<rparr>" False]
  by auto

section \<open>Properties of the semantic table\<close>

subsection \<open>Registering tables\<close>

lemma addTable_scan_None:
  "(\<forall>t\<in>set ts. \<exists>n. Name t = Inr n \<and> tn_Name n \<noteq> tblName) \<Longrightarrow> addTable_scan ts tblName = None"
  by (induction ts) auto

lemma addTable_scan_Some:
  "addTable_scan ts tblName = Some e \<Longrightarrow>
     (\<exists>t\<in>set ts. Name t = Inl e)
     \<or> e = VtError Code_INVALID_ARGUMENT (Some NonUniqTable)
            (''Not unique table/alias: '' @ [CHR 0x27] @ tblName @ [CHR 0x27])"
  by (induction ts) (auto split: sum.splits if_splits)

lemma singleton_card: "i < 64 \<Longrightarrow> NumberOfTables (push_bit i 1) = 1"
proof -
  assume i: "i < 64"
  have "{n. bit (push_bit i (1::TableSet)) n} = {i}" using i by (auto simp: bit_exp_iff)
  then show ?thesis by (simp add: NumberOfTables_card)
qed

lemma singleton_nonzero: "i < 64 \<Longrightarrow> push_bit i (1::TableSet) \<noteq> 0"
proof
  assume "i < 64" and "push_bit i (1::TableSet) = 0"
  then have "NumberOfTables 0 = 1" using singleton_card [of i] by simp
  then show False by (simp add: NumberOfTables_card)
qed

lemma nthTable_Name: "Name (nthTable i) = Inr \<lparr>tn_Name = replicate (Suc i) CHR ''t'', tn_Qualifier = []\<rparr>"
  by (simp add: nthTable_def)

lemma nthTable_addr: "ate_addr (GetExpr (nthTable i)) = i"
  by (simp add: nthTable_def)

lemma replicate_inj: "replicate m x = replicate n x \<Longrightarrow> m = n"
  by (metis length_replicate)

text \<open>
  Claim C1, as stated, fails: a scope that holds 64 tables takes a 65th with a new name
  without any error, and the table set that \<open>TableSetFor\<close> computes for the table at
  index 64 is 0, the empty set.
\<close>

theorem capacity_counterexample:
  "addTable \<lparr>parent = None, selectStmt = None, tables = map nthTable [0..<64], isUnion = False\<rparr>
      (nthTable 64)
     = Inr \<lparr>parent = None, selectStmt = None, tables = map nthTable [0..<65], isUnion = False\<rparr>
   \<and> TableSetFor \<lparr>Tables = map nthTable [0..<65], Recursive = None, Direct = None,
                   ColumnEqualities = None\<rparr> (GetExpr (nthTable 64)) = 0"
proof -
  have fresh: "\<forall>t\<in>set (map nthTable [0..<64]).
          \<exists>n. Name t = Inr n \<and> tn_Name n \<noteq> replicate (Suc 64) CHR ''t''"
  proof
    fix t assume "t \<in> set (map nthTable [0..<64])"
    then obtain i where i: "i < 64" "t = nthTable i" by auto
    then have "replicate (Suc i) CHR ''t'' \<noteq> replicate (Suc 64) CHR ''t''"
      by (metis nat.inject nat_neq_iff replicate_inj)
    with i show "\<exists>n. Name t = Inr n \<and> tn_Name n \<noteq> replicate (Suc 64) CHR ''t''"
      by (simp add: nthTable_Name del: replicate.simps)
  qed
  have up: "[0..<65] = [0..<64] @ [64]"
    using upt_Suc_append [of 0 64] by simp
  have a: "addTable \<lparr>parent = None, selectStmt = None, tables = map nthTable [0..<64], isUnion = False\<rparr>
      (nthTable 64)
     = Inr \<lparr>parent = None, selectStmt = None, tables = map nthTable [0..<65], isUnion = False\<rparr>"
    using addTable_scan_None [OF fresh] by (simp add: addTable_def nthTable_Name up del: replicate.simps)
  have n: "map nthTable [0..<65] ! 64 = nthTable 64" by (simp del: upt_Suc)
  have "TableSetFor_loop (map nthTable [0..<65]) 0 (GetExpr (map nthTable [0..<65] ! 64))
          = push_bit (0 + 64) 1"
    by (rule TableSetFor_loop_first [where i = 64]) (simp_all add: nthTable_addr del: upt_Suc)
  then have b: "TableSetFor \<lparr>Tables = map nthTable [0..<65], Recursive = None, Direct = None,
                   ColumnEqualities = None\<rparr> (GetExpr (nthTable 64)) = 0"
    by (simp add: TableSetFor_def n del: upt_Suc)
  from a b show ?thesis by simp
qed

text \<open>
  Claim C1, amended. Registering has no capacity check. \<open>addTable\<close> appends the table
  whenever its name resolves and differs from the name of every table of the scope,
  however many tables the scope holds; when it fails, the error is that of a name that
  does not resolve or the one for a table or alias that is not unique. For the table
  found first at an index \<open>i\<close> below 64, \<open>TableSetFor\<close> gives \<open>1 << i\<close>, which is not
  empty and holds one table.
\<close>

theorem registration_has_no_capacity_check:
  "(Name info = Inr name
      \<and> (\<forall>t\<in>set (tables s). \<exists>n. Name t = Inr n \<and> tn_Name n \<noteq> tn_Name name)
      \<longrightarrow> addTable s info = Inr (s\<lparr>tables := tables s @ [info]\<rparr>))
   \<and> (\<forall>e. addTable s info = Inl e
        \<longrightarrow> Name info = Inl e
            \<or> (\<exists>t\<in>set (tables s). Name t = Inl e)
            \<or> (\<exists>n. e = VtError Code_INVALID_ARGUMENT (Some NonUniqTable)
                        (''Not unique table/alias: '' @ [CHR 0x27] @ n @ [CHR 0x27])))
   \<and> (i < length (Tables st) \<and> i < 64
        \<and> (\<forall>j<i. ate_addr (GetExpr (Tables st ! j)) \<noteq> ate_addr (GetExpr (Tables st ! i)))
      \<longrightarrow> TableSetFor st (GetExpr (Tables st ! i)) = push_bit i 1
          \<and> TableSetFor st (GetExpr (Tables st ! i)) \<noteq> 0
          \<and> NumberOfTables (TableSetFor st (GetExpr (Tables st ! i))) = 1)"
proof (intro conjI allI impI)
  assume "Name info = Inr name
      \<and> (\<forall>t\<in>set (tables s). \<exists>n. Name t = Inr n \<and> tn_Name n \<noteq> tn_Name name)"
  then show "addTable s info = Inr (s\<lparr>tables := tables s @ [info]\<rparr>)"
    by (simp add: addTable_def addTable_scan_None)
next
  fix e assume "addTable s info = Inl e"
  then show "Name info = Inl e
            \<or> (\<exists>t\<in>set (tables s). Name t = Inl e)
            \<or> (\<exists>n. e = VtError Code_INVALID_ARGUMENT (Some NonUniqTable)
                        (''Not unique table/alias: '' @ [CHR 0x27] @ n @ [CHR 0x27]))"
    by (auto simp: addTable_def split: sum.splits option.splits dest!: addTable_scan_Some)
next
  assume a: "i < length (Tables st) \<and> i < 64
        \<and> (\<forall>j<i. ate_addr (GetExpr (Tables st ! j)) \<noteq> ate_addr (GetExpr (Tables st ! i)))"
  then have eq: "TableSetFor st (GetExpr (Tables st ! i)) = push_bit i 1"
    using TableSetFor_loop_first [of i "Tables st" "GetExpr (Tables st ! i)" 0]
    by (simp add: TableSetFor_def)
  show "TableSetFor st (GetExpr (Tables st ! i)) = push_bit i 1" by (rule eq)
  show "TableSetFor st (GetExpr (Tables st ! i)) \<noteq> 0"
    unfolding eq using a by (intro singleton_nonzero) simp
  show "NumberOfTables (TableSetFor st (GetExpr (Tables st ! i))) = 1"
    unfolding eq using a by (intro singleton_card) simp
qed

text \<open>
  Witness for C1: a third table is added to a scope of two and gets the table set with
  bit 2; a table whose name is in the scope is refused as not unique.
\<close>

theorem registration_has_no_capacity_check_witness:
  "addTable \<lparr>parent = None, selectStmt = None, tables = [nthTable 0, nthTable 1], isUnion = False\<rparr>
      (nthTable 2)
     = Inr \<lparr>parent = None, selectStmt = None, tables = [nthTable 0, nthTable 1, nthTable 2], isUnion = False\<rparr>
   \<and> TableSetFor \<lparr>Tables = [nthTable 0, nthTable 1, nthTable 2], Recursive = None, Direct = None,
                   ColumnEqualities = None\<rparr> (GetExpr (nthTable 2)) = 4
   \<and> NumberOfTables 4 = 1
   \<and> addTable \<lparr>parent = None, selectStmt = None, tables = [nthTable 0, nthTable 1], isUnion = False\<rparr>
      (nthTable 1)
     = Inl (VtError Code_INVALID_ARGUMENT (Some NonUniqTable)
             (''Not unique table/alias: '' @ [CHR 0x27] @ ''tt'' @ [CHR 0x27]))"
proof -
  let ?s = "\<lparr>parent = None, selectStmt = None, tables = [nthTable 0, nthTable 1], isUnion = False\<rparr>"
  let ?st = "\<lparr>Tables = [nthTable 0, nthTable 1, nthTable 2], Recursive = None, Direct = None,
                   ColumnEqualities = None\<rparr>"
  let ?name = "\<lparr>tn_Name = replicate (Suc 2) CHR ''t'', tn_Qualifier = []\<rparr>"
  note T = registration_has_no_capacity_check [of "nthTable 2" ?name ?s 2 ?st]
  have h1: "Name (nthTable 2) = Inr ?name
      \<and> (\<forall>t\<in>set (tables ?s). \<exists>n. Name t = Inr n \<and> tn_Name n \<noteq> tn_Name ?name)"
    by (simp add: nthTable_def eval_nat_numeral)
  have h2: "2 < length (Tables ?st) \<and> (2::nat) < 64
        \<and> (\<forall>j<2. ate_addr (GetExpr (Tables ?st ! j)) \<noteq> ate_addr (GetExpr (Tables ?st ! 2)))"
    by (simp add: nthTable_def less_Suc_eq eval_nat_numeral)
  from T h1 have "addTable ?s (nthTable 2) = Inr (?s\<lparr>tables := tables ?s @ [nthTable 2]\<rparr>)"
    by blast
  then have a: "addTable ?s (nthTable 2)
      = Inr \<lparr>parent = None, selectStmt = None, tables = [nthTable 0, nthTable 1, nthTable 2], isUnion = False\<rparr>"
    by simp
  from T h2 have t: "TableSetFor ?st (GetExpr (Tables ?st ! 2)) = push_bit 2 1"
    and n: "NumberOfTables (TableSetFor ?st (GetExpr (Tables ?st ! 2))) = 1"
    by blast+
  from t have b: "TableSetFor ?st (GetExpr (nthTable 2)) = 4" by simp
  from n have c: "NumberOfTables 4 = 1" unfolding t by simp
  have d: "addTable ?s (nthTable 1)
      = Inl (VtError Code_INVALID_ARGUMENT (Some NonUniqTable)
             (''Not unique table/alias: '' @ [CHR 0x27] @ ''tt'' @ [CHR 0x27]))"
    by (simp add: addTable_def nthTable_def eval_nat_numeral)
  have "Name (nthTable 1) \<noteq> Inl e" "\<forall>t\<in>set (tables ?s). Name t \<noteq> Inl e" for e
    by (simp_all add: nthTable_def)
  with d registration_has_no_capacity_check [of "nthTable 1" _ ?s]
  have "\<exists>n. VtError Code_INVALID_ARGUMENT (Some NonUniqTable)
             (''Not unique table/alias: '' @ [CHR 0x27] @ ''tt'' @ [CHR 0x27])
          = VtError Code_INVALID_ARGUMENT (Some NonUniqTable)
             (''Not unique table/alias: '' @ [CHR 0x27] @ n @ [CHR 0x27])"
    by blast
  from a b c d show ?thesis by simp
qed

subsection \<open>The table of a table set\<close>

lemma TableInfoFor_multiple:
  "1 < card {i. bit ts i} \<Longrightarrow> TableInfoFor st ts = Inl ErrMultipleTables"
  by (simp add: TableInfoFor_def NumberOfTables_card)

text \<open>
  Claim C5, on the inputs where the code departs from it. With one table registered,
  \<open>TableInfoFor\<close> answers the empty set with that table, since \<open>TableOffset\<close> is 0 for the
  empty set as it is for the set of table 0, and only more than one table is refused;
  with no table registered the index is out of range and the call panics, as it does for
  the set of a table that is not registered. A set of two tables gets the error for
  multiple tables. \<open>TableInfoForExpr\<close> reaches the empty set with an expression that depends
  on no table, and answers with the table registered first.
\<close>

theorem TableInfoFor_empty_set:
  "TableInfoFor \<lparr>Tables = [nthTable 0], Recursive = None, Direct = None, ColumnEqualities = None\<rparr> 0
     = Inr (nthTable 0)
   \<and> TableInfoFor \<lparr>Tables = [], Recursive = None, Direct = None, ColumnEqualities = None\<rparr> 0
     = Inl (Panic ''runtime error: index out of range'')
   \<and> TableInfoFor \<lparr>Tables = [nthTable 0], Recursive = None, Direct = None, ColumnEqualities = None\<rparr> 2
     = Inl (Panic ''runtime error: index out of range'')
   \<and> TableInfoFor \<lparr>Tables = [nthTable 0], Recursive = None, Direct = None, ColumnEqualities = None\<rparr> 3
     = Inl ErrMultipleTables
   \<and> TableInfoForExpr \<lparr>Tables = [nthTable 0], Recursive = None, Direct = Some Map.empty,
                        ColumnEqualities = None\<rparr> (PtrExpr 5 [])
     = Inr (nthTable 0, \<lparr>Tables = [nthTable 0], Recursive = None, Direct = Some [PtrExpr 5 [] \<mapsto> 0],
                          ColumnEqualities = None\<rparr>)"
  by (simp add: TableInfoFor_def TableOffset_def TableOffset_loop.simps
      NumberOfTables_def NumberOfTables_loop.simps TableInfoForExpr_def DirectDeps_def
      Dependencies_def mapaccess_def mapassign_def visit_def validAsMapKey_def)

subsection \<open>Dependencies of an expression\<close>

lemma visit_total: "\<exists>r. visit d node deps = Inr r"
  by (auto simp: visit_def mapaccess_def validAsMapKey_def split: option.splits)

lemma Walk_total:
  "\<exists>r. Walk d node deps = Inr r"
  "\<exists>r. Walk_children d nodes deps = Inr r"
proof (induction d node deps and d nodes deps rule: Walk_Walk_children.induct)
  case (1 d c deps)
  then show ?case using visit_total [of d "ColNameExpr c" deps] by auto
next
  case (2 d p cs deps)
  then show ?case using visit_total [of d "PtrExpr p cs" deps] by auto
next
  case (3 d cs deps)
  then show ?case using visit_total [of d "ValTuple cs" deps] by auto
next
  case (4 d p cs deps)
  then show ?case using visit_total [of d "OtherNode p cs" deps] by auto
next
  case (5 d deps)
  then show ?case by simp
next
  case (6 d n ns deps)
  then show ?case by (auto split: sum.splits)
qed

lemma visit_miss:
  "m node = None \<Longrightarrow> visit (Some m) node deps = Inr (True, deps)"
  by (simp add: visit_def mapaccess_def validAsMapKey_def)

lemma Walk_no_entry:
  "(\<forall>n\<in>set (subnodes node). m n = None) \<Longrightarrow> Walk (Some m) node deps = Inr deps"
  "(\<forall>c\<in>set nodes. \<forall>n\<in>set (subnodes c). m n = None) \<Longrightarrow> Walk_children (Some m) nodes deps = Inr deps"
proof (induction "Some m" node deps and "Some m" nodes deps rule: Walk_Walk_children.induct)
  case (1 c deps)
  then show ?case by (simp add: visit_miss)
next
  case (2 p cs deps)
  then show ?case by (simp add: visit_miss)
next
  case (3 cs deps)
  then show ?case by (simp add: visit_miss)
next
  case (4 p cs deps)
  then show ?case by (simp add: visit_miss)
next
  case (5 deps)
  then show ?case by simp
next
  case (6 n ns deps)
  then show ?case by simp
qed

lemma Dependencies_hit:
  "comparable e \<Longrightarrow> m e = Some ts \<Longrightarrow> Dependencies (Some m) e = Inr (ts, Some m)"
  by (simp add: Dependencies_def mapaccess_def)


text \<open>
  Claim C10, as stated, fails: a tuple is an expression; with an empty map it is not in
  the map and has no sub-expression with an entry, and the lookup panics.
\<close>

theorem Dependencies_tuple_counterexample:
  "Dependencies (Some Map.empty) (ValTuple [ColNameExpr colA])
     = Inl (Panic ''runtime error: hash of unhashable type'')"
  by (simp add: Dependencies_def mapaccess_def)

text \<open>
  Claim C10, amended. On a map that is allocated, the lookup of an expression that is
  valid as a map key never fails, and afterwards the map holds the result under that
  expression. When neither the expression nor any node below it has an entry, the result
  is the empty set, and it is stored under the expression; a later lookup of the
  expression gives the empty set again and leaves the map as it is, also after an entry
  for another expression, such as one of its sub-expressions, has been recorded.
\<close>

theorem Dependencies_memoizes_miss:
  "(validAsMapKey e \<longrightarrow> (\<exists>ts m'. Dependencies (Some m) e = Inr (ts, Some m') \<and> m' e = Some ts))
   \<and> (validAsMapKey e \<and> (\<forall>n\<in>set (subnodes e). m n = None)
        \<longrightarrow> Dependencies (Some m) e = Inr (0, Some (m(e \<mapsto> 0)))
            \<and> (\<forall>c ts. c \<noteq> e \<longrightarrow>
                  Dependencies (Some ((m(e \<mapsto> 0))(c \<mapsto> ts))) e
                    = Inr (0, Some ((m(e \<mapsto> 0))(c \<mapsto> ts)))))"
proof -
  have total: "\<exists>ts m'. Dependencies (Some m) e = Inr (ts, Some m') \<and> m' e = Some ts"
    if v: "validAsMapKey e"
  proof (cases "m e")
    case None
    from v have c: "comparable e" by (simp add: validAsMapKey_def)
    obtain r where "Walk (Some m) e 0 = Inr r" using Walk_total(1) by blast
    with None c show ?thesis
      by (simp add: Dependencies_def mapaccess_def mapassign_def)
  next
    case (Some ts)
    from v have c: "comparable e" by (simp add: validAsMapKey_def)
    with Some show ?thesis by (simp add: Dependencies_hit)
  qed
  have miss: "Dependencies (Some m) e = Inr (0, Some (m(e \<mapsto> 0)))
            \<and> (\<forall>c ts. c \<noteq> e \<longrightarrow>
                  Dependencies (Some ((m(e \<mapsto> 0))(c \<mapsto> ts))) e
                    = Inr (0, Some ((m(e \<mapsto> 0))(c \<mapsto> ts))))"
    if a: "validAsMapKey e \<and> (\<forall>n\<in>set (subnodes e). m n = None)"
  proof -
    from a have c: "comparable e" by (simp add: validAsMapKey_def)
    have "e \<in> set (subnodes e)" by (cases e) simp_all
    with a have none: "m e = None" by blast
    from a have w: "Walk (Some m) e 0 = Inr 0" by (simp add: Walk_no_entry(1))
    show ?thesis
      using c none w by (simp add: Dependencies_def mapaccess_def mapassign_def)
  qed
  from total miss show ?thesis by blast
qed

text \<open>
  Witness for C10: an expression over the columns \<open>a\<close> and \<open>b\<close> on the empty map, and the
  same lookup after \<open>a\<close> has been bound to table 0.
\<close>

theorem Dependencies_memoizes_miss_witness:
  "validAsMapKey (PtrExpr 3 [ColNameExpr colA, ColNameExpr colB])
   \<and> Dependencies (Some Map.empty) (PtrExpr 3 [ColNameExpr colA, ColNameExpr colB])
       = Inr (0, Some [PtrExpr 3 [ColNameExpr colA, ColNameExpr colB] \<mapsto> 0])
   \<and> Dependencies (Some [PtrExpr 3 [ColNameExpr colA, ColNameExpr colB] \<mapsto> 0, ColNameExpr colA \<mapsto> 1])
        (PtrExpr 3 [ColNameExpr colA, ColNameExpr colB])
       = Inr (0, Some [PtrExpr 3 [ColNameExpr colA, ColNameExpr colB] \<mapsto> 0, ColNameExpr colA \<mapsto> 1])"
proof -
  let ?e = "PtrExpr 3 [ColNameExpr colA, ColNameExpr colB]"
  have v: "validAsMapKey ?e" by (simp add: validAsMapKey_def)
  have h: "validAsMapKey ?e \<and> (\<forall>n\<in>set (subnodes ?e). Map.empty n = None)" using v by simp
  note T = Dependencies_memoizes_miss [of ?e Map.empty, THEN conjunct2, rule_format, OF h]
  have ne: "ColNameExpr colA \<noteq> ?e" by simp
  from T have 1: "Dependencies (Some Map.empty) ?e = Inr (0, Some [?e \<mapsto> 0])" by blast
  from T ne have 2: "Dependencies (Some [?e \<mapsto> 0, ColNameExpr colA \<mapsto> 1]) ?e
       = Inr (0, Some [?e \<mapsto> 0, ColNameExpr colA \<mapsto> 1])" by blast
  from v 1 2 show ?thesis by blast
qed

text \<open>
  Claim C4, on the input where the code departs from it. The tuple of the column \<open>a\<close> is
  not valid as a map key, and \<open>a\<close> has an entry. Given to \<open>Dependencies\<close> itself, the tuple
  is used as the key of the first map access, which panics; below another expression the
  walk passes through the same tuple and finds the entry of \<open>a\<close>.
\<close>

theorem Dependencies_top_level_tuple:
  "\<not> validAsMapKey (ValTuple [ColNameExpr colA])
   \<and> Dependencies (Some [ColNameExpr colA \<mapsto> 1]) (ValTuple [ColNameExpr colA])
       = Inl (Panic ''runtime error: hash of unhashable type'')
   \<and> Dependencies (Some [ColNameExpr colA \<mapsto> 1]) (PtrExpr 3 [ValTuple [ColNameExpr colA]])
       = Inr (1, Some [ColNameExpr colA \<mapsto> 1, PtrExpr 3 [ValTuple [ColNameExpr colA]] \<mapsto> 1])"
  by (simp add: Dependencies_def mapaccess_def mapassign_def visit_def validAsMapKey_def colA_def)

subsection \<open>Column equalities\<close>





section \<open>Properties of the rewriting\<close>

lemma not_isPanic_cases:
  "\<not> isPanic r \<Longrightarrow> (\<exists>c s m. r = Inl (VtError c s m)) \<or> (\<exists>x. r = Inr x)"
  by (cases r rule: isPanic.cases) auto

lemma Rewrite_no_panic:
  "(\<forall>s. \<not> isPanic (g s)) \<Longrightarrow> Rewrite g node = Inr (replaceResolvable g node)"
  "(\<forall>s. \<not> isPanic (g s)) \<Longrightarrow> Rewrite_children g nodes = Inr (map (replaceResolvable g) nodes)"
proof (induction g node and g nodes rule: Rewrite_Rewrite_children.induct)
  case (1 getExprFor c)
  then have "\<not> isPanic (getExprFor (cn_Name c))" by blast
  then show ?case
    using not_isPanic_cases [of "getExprFor (cn_Name c)"] by auto
qed simp_all

lemma Rewrite_error_is_panic:
  "Rewrite g node = Inl err \<Longrightarrow> \<exists>m. err = Panic m"
  "Rewrite_children g nodes = Inl err \<Longrightarrow> \<exists>m. err = Panic m"
proof (induction g node and g nodes arbitrary: err and err rule: Rewrite_Rewrite_children.induct)
  case (1 getExprFor c)
  then show ?case
    by (auto split: sum.splits error.splits)
next
  case (2 getExprFor p cs)
  then show ?case by (auto split: sum.splits)
next
  case (3 getExprFor cs)
  then show ?case by (auto split: sum.splits)
next
  case (4 getExprFor p cs)
  then show ?case by (auto split: sum.splits)
next
  case (5 getExprFor)
  then show ?case by simp
next
  case (6 getExprFor n ns)
  then show ?case by (auto split: sum.splits)
qed

lemma replaceResolvable_unresolvable:
  "(\<forall>s. \<exists>err. g s = Inl err) \<Longrightarrow> replaceResolvable g node = node"
proof (induction node)
  case (ColNameExpr c)
  then obtain err where "g (cn_Name c) = Inl err" by blast
  then show ?case by simp
next
  case (PtrExpr p cs)
  then show ?case by (simp add: map_idI)
next
  case (ValTuple cs)
  then show ?case by (simp add: map_idI)
next
  case (OtherNode p cs)
  then show ?case by (simp add: map_idI)
qed

lemma RewriteDerivedExpression_with_no_panic:
  assumes "\<forall>s. \<not> isPanic (g s)"
  shows "RewriteDerivedExpression_with g reloc expr
           = Inr (case expr of
                    ColNameExpr c \<Rightarrow> CloneExpr reloc expr
                  | _ \<Rightarrow> replaceResolvable g (CloneExpr reloc expr))"
  using assms
  by (cases expr) (simp_all add: RewriteDerivedExpression_with_def Rewrite_no_panic Let_def)

text \<open>
  Claim C2, as stated, fails: the aliased table \<open>d\<close> does not resolve \<open>foo\<close>, and rewriting
  an expression over \<open>foo\<close> returns the copy of the expression, not an error.
\<close>

theorem RewriteDerivedExpression_counterexample:
  "GetExprFor (AliasedTable ''d'' \<lparr>ate_addr = 7, ate_TableName = Inr \<lparr>tn_Name = ''d'', tn_Qualifier = []\<rparr>\<rparr> None False) ''foo''
     = Inl (VtError Code_INTERNAL None
             (''Unknown column '' @ [CHR 0x27] @ ''foo'' @ [CHR 0x27] @ '' in '' @ [CHR 0x27] @ ''field list'' @ [CHR 0x27]))
   \<and> RewriteDerivedExpression (\<lambda>p. p + 100) (PtrExpr 3 [ColNameExpr colFoo, PtrExpr 4 []])
       (AliasedTable ''d'' \<lparr>ate_addr = 7, ate_TableName = Inr \<lparr>tn_Name = ''d'', tn_Qualifier = []\<rparr>\<rparr> None False)
     = Inr (PtrExpr 103 [ColNameExpr (colFoo\<lparr>cn_addr := 101\<rparr>), PtrExpr 104 []])"
  by (simp add: RewriteDerivedExpression_def RewriteDerivedExpression_with_def colFoo_def)

text \<open>
  Claim C2, amended. \<open>RewriteDerivedExpression\<close> never returns the error of \<^verbatim>\<open>GetExprFor\<close>:
  with an aliased table, which resolves no column, the result is the copy of the
  expression with every column in place, and for no table is the result an error of
  \<^verbatim>\<open>vterrors\<close>. Whenever \<^verbatim>\<open>GetExprFor\<close> does not panic, the call returns an expression; when the
  expression is not itself a column, that expression is the copy in which every column
  that \<^verbatim>\<open>GetExprFor\<close> resolves is replaced by the projection expression and every
  other column is left in place.
\<close>

theorem RewriteDerivedExpression_drops_errors:
  "RewriteDerivedExpression reloc expr (AliasedTable tableName ASTNode Table isInfSchema)
     = Inr (CloneExpr reloc expr)
   \<and> (\<forall>code state msg. RewriteDerivedExpression reloc expr vt \<noteq> Inl (VtError code state msg))
   \<and> ((\<forall>s. \<not> isPanic (getExprFor s))
        \<longrightarrow> (\<exists>newExpr. RewriteDerivedExpression_with getExprFor reloc expr = Inr newExpr))
   \<and> ((\<forall>s. \<not> isPanic (getExprFor s)) \<and> (\<forall>c. expr \<noteq> ColNameExpr c)
        \<longrightarrow> RewriteDerivedExpression_with getExprFor reloc expr
              = Inr (replaceResolvable getExprFor (CloneExpr reloc expr)))"
proof -
  let ?a = "AliasedTable tableName ASTNode Table isInfSchema"
  have np: "\<forall>s. \<not> isPanic (GetExprFor ?a s)" by simp
  have un: "\<forall>s. \<exists>err. GetExprFor ?a s = Inl err" by simp
  have 1: "RewriteDerivedExpression reloc expr ?a = Inr (CloneExpr reloc expr)"
    unfolding RewriteDerivedExpression_def
    by (cases expr)
      (simp_all only: RewriteDerivedExpression_with_no_panic [OF np]
        replaceResolvable_unresolvable [OF un] SQLNode.case)
  have 2: "RewriteDerivedExpression reloc expr vt \<noteq> Inl (VtError code state msg)"
    for code state msg
  proof
    assume e: "RewriteDerivedExpression reloc expr vt = Inl (VtError code state msg)"
    then have "Rewrite (GetExprFor vt) (CloneExpr reloc expr) = Inl (VtError code state msg)"
      by (auto simp: RewriteDerivedExpression_def RewriteDerivedExpression_with_def Let_def
          split: sum.splits SQLNode.splits)
    from Rewrite_error_is_panic(1) [OF this] show False by simp
  qed
  have 3: "\<exists>newExpr. RewriteDerivedExpression_with getExprFor reloc expr = Inr newExpr"
    if "\<forall>s. \<not> isPanic (getExprFor s)"
    using RewriteDerivedExpression_with_no_panic [OF that] by simp
  have 4: "RewriteDerivedExpression_with getExprFor reloc expr
              = Inr (replaceResolvable getExprFor (CloneExpr reloc expr))"
    if "(\<forall>s. \<not> isPanic (getExprFor s)) \<and> (\<forall>c. expr \<noteq> ColNameExpr c)"
    using that RewriteDerivedExpression_with_no_panic [of getExprFor reloc expr]
    by (cases expr) simp_all
  from 1 2 3 4 show ?thesis by blast
qed

text \<open>
  Witness for C2: in an expression over \<open>foo\<close> and \<open>id\<close>, the derived table resolves \<open>foo\<close>,
  which is replaced by its projection expression, and not \<open>id\<close>, which stays.
\<close>

theorem RewriteDerivedExpression_drops_errors_witness:
  "(\<forall>s. \<not> isPanic (derivedExprFor s))
   \<and> (\<forall>c. PtrExpr 3 [ColNameExpr colFoo, ColNameExpr colId] \<noteq> ColNameExpr c)
   \<and> RewriteDerivedExpression_with derivedExprFor (\<lambda>p. p + 100)
        (PtrExpr 3 [ColNameExpr colFoo, ColNameExpr colId])
     = Inr (PtrExpr 103 [PtrExpr 9 [ColNameExpr colId, PtrExpr 10 []],
                         ColNameExpr (colId\<lparr>cn_addr := 102\<rparr>)])"
proof -
  have h: "(\<forall>s. \<not> isPanic (derivedExprFor s))
          \<and> (\<forall>c. PtrExpr 3 [ColNameExpr colFoo, ColNameExpr colId] \<noteq> ColNameExpr c)"
    by (simp add: derivedExprFor_def)
  from RewriteDerivedExpression_drops_errors
         [of "\<lambda>p. p + 100" "PtrExpr 3 [ColNameExpr colFoo, ColNameExpr colId]" _ _ _ _ _ derivedExprFor] h
  have "RewriteDerivedExpression_with derivedExprFor (\<lambda>p. p + 100)
        (PtrExpr 3 [ColNameExpr colFoo, ColNameExpr colId])
     = Inr (replaceResolvable derivedExprFor
             (CloneExpr (\<lambda>p. p + 100) (PtrExpr 3 [ColNameExpr colFoo, ColNameExpr colId])))"
    by blast
  then have "RewriteDerivedExpression_with derivedExprFor (\<lambda>p. p + 100)
        (PtrExpr 3 [ColNameExpr colFoo, ColNameExpr colId])
     = Inr (PtrExpr 103 [PtrExpr 9 [ColNameExpr colId, PtrExpr 10 []],
                         ColNameExpr (colId\<lparr>cn_addr := 102\<rparr>)])"
    by (simp add: derivedExprFor_def colFoo_def colId_def)
  with h show ?thesis by blast
qed

end
